theory Spec2Isabelle
  imports Complex_Main "HOL-Library.Multiset" "HOL-Library.AList" "HOL-Library.Sublist"
begin

section \<open>Cryptocurrency price forecasting notebook: a shallow embedding\<close>

text \<open>
  The development follows the modelling notebook (data loading, feature engineering,
  sequence preparation, training and evaluation, main loop) and, for data loading, the
  time-series-analysis notebook. Python floats are modelled by exact reals together
  with the two special values that decide control flow (not-a-number and infinity).
  Of the finite format of doubles one effect is modelled, the overflow of the range a
  scaler is fitted on; rounding is not modelled, and what is proved about a computed
  number is proved of exact arithmetic. Exceptions are values of \<open>py_error\<close> on the left
  of a sum.
\<close>

datatype py_error =
  FileNotFoundError | KeyError | IndexError | ValueError | AttributeError | OSError

subsection \<open>Python sequences\<close>

text \<open>\<open>xs[k]\<close>: a negative index counts from the end; out of range raises IndexError.\<close>

definition list_getitem :: "'a list \<Rightarrow> int \<Rightarrow> py_error + 'a" where
  "list_getitem xs k =
     (let n = int (length xs); j = (if k < 0 then n + k else k)
      in if 0 \<le> j \<and> j < n then Inr (xs ! nat j) else Inl IndexError)"

text \<open>\<open>xs[i:j]\<close> for non-negative bounds: both are clamped to the length, never an error.\<close>

definition list_slice :: "'a list \<Rightarrow> nat \<Rightarrow> nat \<Rightarrow> 'a list" where
  "list_slice xs i j = take (j - i) (drop i xs)"

subsection \<open>Sequence preparation: \<open>create_sequences\<close>\<close>

text \<open>
  \<^verbatim>\<open>
  def create_sequences(data, seq_length=30):
      X, y = [], []
      for i in range(len(data) - seq_length):
          X.append(data[i:i+seq_length])
          y.append(data[i+seq_length])
      return np.array(X), np.array(y)
  \<close>
  \<open>seq_length\<close> is a window length, a natural number; \<open>range\<close> of a non-positive
  number is empty, which is what truncated subtraction gives. The loop body is one step
  of \<open>create_sequences_loop\<close>, which carries the two accumulators.
\<close>

fun create_sequences_loop ::
  "'a list \<Rightarrow> nat \<Rightarrow> nat list \<Rightarrow> 'a list list \<times> 'a list \<Rightarrow> py_error + ('a list list \<times> 'a list)"
where
  "create_sequences_loop data seq_length [] (X, y) = Inr (X, y)"
| "create_sequences_loop data seq_length (i # rest) (X, y) =
     (case list_getitem data (int (i + seq_length)) of
        Inl e \<Rightarrow> Inl e
      | Inr target \<Rightarrow>
          create_sequences_loop data seq_length rest
            (X @ [list_slice data i (i + seq_length)], y @ [target]))"

definition create_sequences ::
  "'a list \<Rightarrow> nat \<Rightarrow> py_error + ('a list list \<times> 'a list)"
where
  "create_sequences data seq_length =
     create_sequences_loop data seq_length [0 ..< length data - seq_length] ([], [])"

subsection \<open>Data frames\<close>

text \<open>
  A float cell is a finite value, an infinity (the sign is not tracked) or NaN, the
  missing value of pandas. A frame has one index label per row and named columns, each
  with one cell per row, in column order. Timestamps are cells like any other, the
  missing timestamp being NaN.
\<close>

datatype cell = Val real | Infinite | NaN

record dataframe =
  index :: "cell list"
  columns :: "(string \<times> cell list) list"

text \<open>\<open>df[name]\<close> raises KeyError for an unknown column.\<close>

definition getitem :: "dataframe \<Rightarrow> string \<Rightarrow> py_error + cell list" where
  "getitem df name =
     (case map_of (columns df) name of None \<Rightarrow> Inl KeyError | Some c \<Rightarrow> Inr c)"

text \<open>\<open>df[name] = c\<close> replaces the column in place, or appends a new last column.\<close>

definition setitem :: "dataframe \<Rightarrow> string \<Rightarrow> cell list \<Rightarrow> dataframe" where
  "setitem df name c = df\<lparr>columns := AList.update name c (columns df)\<rparr>"

text \<open>A well-formed frame: the column names differ and every column has one cell per row.\<close>

definition wf_frame :: "dataframe \<Rightarrow> bool" where
  "wf_frame df \<longleftrightarrow>
     distinct (map fst (columns df)) \<and>
     list_all (\<lambda>(name, c). length c = length (index df)) (columns df)"

text \<open>The default index of a frame read from a file: 0, 1, ..., n - 1.\<close>

definition range_index :: "nat \<Rightarrow> cell list" where
  "range_index n = map (\<lambda>i. Val (real i)) [0 ..< n]"

subsection \<open>Series operations of pandas used by the notebook\<close>

text \<open>\<open>shift(k)\<close>: every value moves k rows down; the first k rows become NaN.\<close>

definition shift :: "nat \<Rightarrow> cell list \<Rightarrow> cell list" where
  "shift k xs = replicate (min k (length xs)) NaN @ take (length xs - k) xs"

text \<open>Forward fill: a NaN takes the last value seen before it, if any.\<close>

fun ffill_from :: "cell \<Rightarrow> cell list \<Rightarrow> cell list" where
  "ffill_from prev [] = []"
| "ffill_from prev (x # xs) =
     (if x = NaN then prev # ffill_from prev xs else x # ffill_from x xs)"

definition ffill :: "cell list \<Rightarrow> cell list" where
  "ffill xs = ffill_from NaN xs"

text \<open>Float division and subtraction of one, on the special values as IEEE has them.\<close>

fun cell_div :: "cell \<Rightarrow> cell \<Rightarrow> cell" where
  "cell_div (Val a) (Val b) =
     (if b = 0 then (if a = 0 then NaN else Infinite) else Val (a / b))"
| "cell_div (Val a) Infinite = Val 0"
| "cell_div Infinite (Val b) = Infinite"
| "cell_div Infinite Infinite = NaN"
| "cell_div NaN b = NaN"
| "cell_div a NaN = NaN"

fun cell_minus_one :: "cell \<Rightarrow> cell" where
  "cell_minus_one (Val a) = Val (a - 1)"
| "cell_minus_one Infinite = Infinite"
| "cell_minus_one NaN = NaN"

text \<open>
  \<open>pct_change(periods)\<close> with the default \<open>fill_method='pad'\<close>: the series is forward
  filled, then divided by its shift, minus one.
\<close>

definition pct_change :: "nat \<Rightarrow> cell list \<Rightarrow> cell list" where
  "pct_change periods xs =
     (let data = ffill xs
      in map2 (\<lambda>a b. cell_minus_one (cell_div a b)) data (shift periods data))"

text \<open>
  \<open>rolling(window)\<close> with the default \<open>min_periods = window\<close>: the window of row i is
  the last \<open>window\<close> rows up to i (fewer at the start); infinities count as missing; the
  aggregate is NaN unless the window holds \<open>window\<close> observations.
\<close>

fun observations :: "cell list \<Rightarrow> real list" where
  "observations [] = []"
| "observations (Val v # cs) = v # observations cs"
| "observations (c # cs) = observations cs"

definition rolling :: "nat \<Rightarrow> (real list \<Rightarrow> cell) \<Rightarrow> cell list \<Rightarrow> cell list" where
  "rolling window agg xs =
     map (\<lambda>i. let obs = observations (list_slice xs (Suc i - window) (Suc i))
              in if length obs < window then NaN else agg obs)
       [0 ..< length xs]"

definition mean :: "real list \<Rightarrow> cell" where
  "mean obs = Val (sum_list obs / real (length obs))"

text \<open>The sample standard deviation (one delta degree of freedom).\<close>

definition std :: "real list \<Rightarrow> cell" where
  "std obs =
     (let n = length obs; m = sum_list obs / real n
      in if n \<le> 1 then NaN
         else Val (sqrt (sum_list (map (\<lambda>x. (x - m)\<^sup>2) obs) / real (n - 1))))"

text \<open>\<open>dropna()\<close>: a new frame with the rows that have no NaN in any column.\<close>

definition notna_rows :: "dataframe \<Rightarrow> bool list" where
  "notna_rows df =
     map (\<lambda>i. list_all (\<lambda>(name, c). c ! i \<noteq> NaN) (columns df)) [0 ..< length (index df)]"

definition select_rows :: "bool list \<Rightarrow> 'a list \<Rightarrow> 'a list" where
  "select_rows keep xs = map snd (filter fst (zip keep xs))"

definition dropna :: "dataframe \<Rightarrow> dataframe" where
  "dropna df =
     (let keep = notna_rows df
      in \<lparr>index = select_rows keep (index df),
          columns = map (\<lambda>(name, c). (name, select_rows keep c)) (columns df)\<rparr>)"

subsection \<open>Data loading\<close>

text \<open>
  Frames are objects: a store holds them and a reference is a position in the store. The
  file system maps a path to the frame its CSV file parses to, or to nothing.
\<close>

type_synonym store = "dataframe list"

definition read_csv :: "(string \<Rightarrow> dataframe option) \<Rightarrow> string \<Rightarrow> py_error + dataframe" where
  "read_csv fs path = (case fs path of None \<Rightarrow> Inl FileNotFoundError | Some df \<Rightarrow> Inr df)"

text \<open>Timestamps are stored parsed, so \<open>to_datetime\<close> leaves the cells as they are.\<close>

definition to_datetime :: "cell list \<Rightarrow> cell list" where
  "to_datetime c = c"

text \<open>
  The modelling notebook:
  \<^verbatim>\<open>
  def load_crypto_data(crypto_name):
      data_path = f'../data/processed/{crypto_name}_processed.csv'
      df = pd.read_csv(data_path)
      df['timestamp'] = pd.to_datetime(df['timestamp'])
      return df
  \<close>
\<close>

definition load_crypto_data ::
  "(string \<Rightarrow> dataframe option) \<Rightarrow> store \<Rightarrow> string \<Rightarrow> store \<times> (py_error + nat)"
where
  "load_crypto_data fs s crypto_name =
     (let data_path = ''../data/processed/'' @ crypto_name @ ''_processed.csv''
      in case read_csv fs data_path of
           Inl e \<Rightarrow> (s, Inl e)
         | Inr d \<Rightarrow>
             (let df = length s; s1 = s @ [d]
              in case getitem (s1 ! df) ''timestamp'' of
                   Inl e \<Rightarrow> (s1, Inl e)
                 | Inr ts \<Rightarrow> (s1[df := setitem (s1 ! df) ''timestamp'' (to_datetime ts)], Inr df)))"

text \<open>
  The time-series-analysis notebook has its own loader, and uses it at once:
  \<^verbatim>\<open>
  def load_crypto_data(crypto_name='bitcoin'):
      try:
          data = pd.read_csv(f'data/processed/features/{crypto_name}_engineered_features.csv',
                             parse_dates=['timestamp'])
          data.set_index('timestamp', inplace=True)
          return data
      except FileNotFoundError:
          print(f"No data found for {crypto_name}. Ensure data preprocessing is complete.")
          return None

  crypto_name = 'bitcoin'
  crypto_data = load_crypto_data(crypto_name)
  print(crypto_data.info())
  \<close>
  A missing \<open>parse_dates\<close> column is a ValueError of \<open>read_csv\<close>. The result of the
  function is the printed text together with an exception or the returned value, which
  is a frame or None.
\<close>

definition set_index :: "dataframe \<Rightarrow> string \<Rightarrow> py_error + dataframe" where
  "set_index df name =
     (case getitem df name of
        Inl e \<Rightarrow> Inl e
      | Inr c \<Rightarrow> Inr \<lparr>index = c, columns = AList.delete name (columns df)\<rparr>)"

definition load_crypto_data_ts ::
  "(string \<Rightarrow> dataframe option) \<Rightarrow> string \<Rightarrow> string list \<times> (py_error + dataframe option)"
where
  "load_crypto_data_ts fs crypto_name =
     (case read_csv fs (''data/processed/features/'' @ crypto_name @ ''_engineered_features.csv'') of
        Inl e \<Rightarrow>
          (if e = FileNotFoundError
           then ([''No data found for '' @ crypto_name @ ''. Ensure data preprocessing is complete.''],
                 Inr None)
           else ([], Inl e))
      | Inr d \<Rightarrow>
          (case getitem d ''timestamp'' of
             Inl e \<Rightarrow> ([], Inl ValueError)
           | Inr ts \<Rightarrow>
               (case set_index d ''timestamp'' of
                  Inl e \<Rightarrow> ([], Inl e)
                | Inr data \<Rightarrow> ([], Inr (Some data)))))"

text \<open>
  \<open>print(crypto_data.info())\<close>: \<open>info\<close> prints a summary of the frame and returns
  None, which is printed next; None itself has no such attribute.
\<close>

definition info :: "dataframe option \<Rightarrow> py_error + string list" where
  "info crypto_data =
     (case crypto_data of
        None \<Rightarrow> Inl AttributeError
      | Some df \<Rightarrow> Inr [''<summary of the frame>''])"

definition load_and_describe ::
  "(string \<Rightarrow> dataframe option) \<Rightarrow> string list \<times> py_error option"
where
  "load_and_describe fs =
     (let crypto_name = ''bitcoin''
      in case load_crypto_data_ts fs crypto_name of
           (out, Inl e) \<Rightarrow> (out, Some e)
         | (out, Inr crypto_data) \<Rightarrow>
             (case info crypto_data of
                Inl e \<Rightarrow> (out, Some e)
              | Inr summary \<Rightarrow> (out @ summary @ [''None''], None)))"

subsection \<open>Feature engineering: \<open>create_time_series_features\<close>\<close>

text \<open>
  \<^verbatim>\<open>
  def create_time_series_features(df):
      df['rolling_mean_7d'] = df['price'].rolling(window=7).mean()
      df['rolling_std_7d'] = df['price'].rolling(window=7).std()
      df['price_change_1d'] = df['price'].pct_change()
      df['price_change_7d'] = df['price'].pct_change(periods=7)
      df['price_lag_1'] = df['price'].shift(1)
      df['price_lag_7'] = df['price'].shift(7)
      return df.dropna()
  \<close>
  Each assignment reads the price column of the object and writes a column of the same
  object; the list below holds the six assignments in order. \<open>dropna\<close> allocates the
  frame that is returned.
\<close>

definition derived_columns :: "(string \<times> (cell list \<Rightarrow> cell list)) list" where
  "derived_columns =
     [(''rolling_mean_7d'', rolling 7 mean),
      (''rolling_std_7d'', rolling 7 std),
      (''price_change_1d'', pct_change 1),
      (''price_change_7d'', pct_change 7),
      (''price_lag_1'', shift 1),
      (''price_lag_7'', shift 7)]"

fun assign_columns ::
  "(string \<times> (cell list \<Rightarrow> cell list)) list \<Rightarrow> store \<Rightarrow> nat \<Rightarrow> store \<times> py_error option"
where
  "assign_columns [] s df = (s, None)"
| "assign_columns ((name, f) # rest) s df =
     (case getitem (s ! df) ''price'' of
        Inl e \<Rightarrow> (s, Some e)
      | Inr price \<Rightarrow> assign_columns rest (s[df := setitem (s ! df) name (f price)]) df)"

definition create_time_series_features :: "store \<Rightarrow> nat \<Rightarrow> store \<times> (py_error + nat)" where
  "create_time_series_features s df =
     (case assign_columns derived_columns s df of
        (s1, Some e) \<Rightarrow> (s1, Inl e)
      | (s1, None) \<Rightarrow> (s1 @ [dropna (s1 ! df)], Inr (length s1)))"

subsection \<open>Scaling: \<open>MinMaxScaler\<close>\<close>

text \<open>
  The scaler of scikit-learn (version 1) with its default feature range (0, 1), on one
  column. An empty column and an infinite cell are ValueErrors of the input check. The
  column that reaches the scaler comes out of \<open>dropna\<close> and holds no NaN; the model
  gives that case a ValueError too.

  Fitting records the column's minimum and maximum. Their difference, the range, is a
  double: a difference at or beyond the overflow threshold of the format is infinite,
  and the scale, its reciprocal, is then 0.0. A finite range below ten machine epsilons,
  zero among them, is replaced by one before the scale is computed. The fields
  \<open>scale\<close> and \<open>min_shift\<close> are the attributes \<^verbatim>\<open>scale_\<close> and \<^verbatim>\<open>min_\<close> of the
  library's object.

  \<open>inverse_transform\<close> subtracts the shift and divides by the scale. The quotient is a
  float division: by a zero scale it is NaN or infinite.
\<close>

record scaler =
  data_min :: real
  data_max :: real
  scale :: real
  min_shift :: real

fun finite_column :: "cell list \<Rightarrow> py_error + real list" where
  "finite_column [] = Inr []"
| "finite_column (Val v # cs) =
     (case finite_column cs of Inl e \<Rightarrow> Inl e | Inr vs \<Rightarrow> Inr (v # vs))"
| "finite_column (c # cs) = Inl ValueError"

definition overflow_threshold :: real where
  "overflow_threshold = 2 ^ 1024 - 2 ^ 970"

definition machine_epsilon :: real where
  "machine_epsilon = 1 / 2 ^ 52"

definition handle_zeros_in_scale :: "real \<Rightarrow> real" where
  "handle_zeros_in_scale r = (if r < 10 * machine_epsilon then 1 else r)"

definition scaler_fit :: "real list \<Rightarrow> py_error + scaler" where
  "scaler_fit xs =
     (if xs = [] then Inl ValueError
      else let lo = fold min xs (hd xs);
               hi = fold max xs (hd xs)
           in if overflow_threshold \<le> hi - lo
              then Inr \<lparr>data_min = lo, data_max = hi, scale = 0, min_shift = 0 - lo * 0\<rparr>
              else let data_range = hi - lo;
                       sc = (1 - 0) / handle_zeros_in_scale data_range
                   in Inr \<lparr>data_min = lo, data_max = hi, scale = sc, min_shift = 0 - lo * sc\<rparr>)"

definition transform :: "scaler \<Rightarrow> real list \<Rightarrow> real list" where
  "transform sc xs = map (\<lambda>x. x * scale sc + min_shift sc) xs"

definition inverse_transform :: "scaler \<Rightarrow> real list \<Rightarrow> cell list" where
  "inverse_transform sc xs = map (\<lambda>x. cell_div (Val (x - min_shift sc)) (Val (scale sc))) xs"

definition fit_transform :: "cell list \<Rightarrow> py_error + (scaler \<times> real list)" where
  "fit_transform col =
     (case finite_column col of
        Inl e \<Rightarrow> Inl e
      | Inr xs \<Rightarrow>
          (case scaler_fit xs of
             Inl e \<Rightarrow> Inl e
           | Inr sc \<Rightarrow> Inr (sc, transform sc xs)))"

subsection \<open>Splitting: \<open>train_test_split(X, y, test_size, shuffle=False)\<close>\<close>

text \<open>
  The sizes are those of scikit-learn for a fractional test size: the test size times
  the number of samples, rounded up, for the test set, and the rest for the training
  set, which must not be empty. Without shuffling the training indices are the first
  ones and the test indices the ones after them.
\<close>

definition validate_shuffle_split :: "nat \<Rightarrow> real \<Rightarrow> py_error + (nat \<times> nat)" where
  "validate_shuffle_split n_samples test_size =
     (if test_size \<le> 0 \<or> 1 \<le> test_size then Inl ValueError
      else let n_test = nat \<lceil>test_size * real n_samples\<rceil>;
               n_train = n_samples - n_test
           in if n_train = 0 then Inl ValueError else Inr (n_train, n_test))"

definition split_indices :: "nat \<Rightarrow> real \<Rightarrow> py_error + (nat list \<times> nat list)" where
  "split_indices n_samples test_size =
     (case validate_shuffle_split n_samples test_size of
        Inl e \<Rightarrow> Inl e
      | Inr (n_train, n_test) \<Rightarrow> Inr ([0 ..< n_train], [n_train ..< n_train + n_test]))"

definition train_test_split ::
  "'a list \<Rightarrow> 'b list \<Rightarrow> real \<Rightarrow> py_error + ('a list \<times> 'a list \<times> 'b list \<times> 'b list)"
where
  "train_test_split X y test_size =
     (if length X \<noteq> length y then Inl ValueError
      else case split_indices (length X) test_size of
             Inl e \<Rightarrow> Inl e
           | Inr (train, test) \<Rightarrow>
               Inr (map ((!) X) train, map ((!) X) test, map ((!) y) train, map ((!) y) test))"

subsection \<open>Metrics\<close>

text \<open>
  The three metrics of scikit-learn on one output. All of them refuse arrays of different
  lengths, empty arrays and arrays that hold NaN or an infinity, with a ValueError.
  \<open>r2_score\<close> is NaN (with a warning) for fewer than two samples; where the total sum of
  squares is zero it is 1 for a zero residual and 0 otherwise, and where the residual is
  zero it is 1. The two tests for zero are made here on exact sums; the library makes
  them on the sums it computed in doubles, and a rounded mean can leave the computed
  total sum of squares of a constant array tiny and not zero.
\<close>

definition check_reg_targets :: "cell list \<Rightarrow> cell list \<Rightarrow> py_error + (real list \<times> real list)" where
  "check_reg_targets y_true y_pred =
     (if length y_true \<noteq> length y_pred \<or> y_true = [] then Inl ValueError
      else case finite_column y_true of
             Inl e \<Rightarrow> Inl e
           | Inr t \<Rightarrow>
               (case finite_column y_pred of
                  Inl e \<Rightarrow> Inl e
                | Inr p \<Rightarrow> Inr (t, p)))"

definition mean_squared_error :: "cell list \<Rightarrow> cell list \<Rightarrow> py_error + real" where
  "mean_squared_error y_true y_pred =
     (case check_reg_targets y_true y_pred of
        Inl e \<Rightarrow> Inl e
      | Inr (t, p) \<Rightarrow> Inr (sum_list (map2 (\<lambda>t p. (t - p)\<^sup>2) t p) / real (length t)))"

definition mean_absolute_error :: "cell list \<Rightarrow> cell list \<Rightarrow> py_error + real" where
  "mean_absolute_error y_true y_pred =
     (case check_reg_targets y_true y_pred of
        Inl e \<Rightarrow> Inl e
      | Inr (t, p) \<Rightarrow> Inr (sum_list (map2 (\<lambda>t p. \<bar>p - t\<bar>) t p) / real (length t)))"

definition r2_score :: "cell list \<Rightarrow> cell list \<Rightarrow> py_error + cell" where
  "r2_score y_true y_pred =
     (case check_reg_targets y_true y_pred of
        Inl e \<Rightarrow> Inl e
      | Inr (t, p) \<Rightarrow>
          if length p < 2 then Inr NaN
          else let numerator = sum_list (map2 (\<lambda>t p. (t - p)\<^sup>2) t p);
                   average = sum_list t / real (length t);
                   denominator = sum_list (map (\<lambda>t. (t - average)\<^sup>2) t)
               in if denominator \<noteq> 0 \<and> numerator \<noteq> 0 then Inr (Val (1 - numerator / denominator))
                  else if numerator \<noteq> 0 \<and> denominator = 0 then Inr (Val 0)
                  else Inr (Val 1))"

subsection \<open>Training and evaluation: \<open>train_and_evaluate_model\<close>\<close>

text \<open>
  What the notebook does not define is a parameter: the file system, the network
  (building and training it on the training windows, which may raise, and its prediction
  for one window), and the two file writes (the plot and the saved network), each of
  which may raise. The scaled data has one column, so a window is a list of numbers.
\<close>

record 'm env =
  files :: "string \<Rightarrow> dataframe option"
  fit :: "real list list \<Rightarrow> real list \<Rightarrow> py_error + 'm"
  predict :: "'m \<Rightarrow> real list \<Rightarrow> real"
  savefig :: "string \<Rightarrow> py_error option"
  save :: "'m \<Rightarrow> string \<Rightarrow> py_error option"

text \<open>
  \<^verbatim>\<open>
  df = load_crypto_data(crypto_name)
  df = create_time_series_features(df)
  \<close>
  Both frames are local objects of the call, so the store starts empty.
\<close>

definition load_features :: "(string \<Rightarrow> dataframe option) \<Rightarrow> string \<Rightarrow> py_error + dataframe" where
  "load_features fs crypto_name =
     (case load_crypto_data fs [] crypto_name of
        (s1, Inl e) \<Rightarrow> Inl e
      | (s1, Inr df) \<Rightarrow>
          (case create_time_series_features s1 df of
             (s2, Inl e) \<Rightarrow> Inl e
           | (s2, Inr df') \<Rightarrow> Inr (s2 ! df')))"

text \<open>
  \<^verbatim>\<open>
  scaler = MinMaxScaler()
  scaled_data = scaler.fit_transform(df[['price']])
  X, y = create_sequences(scaled_data)
  X_train, X_test, y_train, y_test = train_test_split(X, y, test_size=0.2, shuffle=False)
  model = build_lstm_model(...); history = model.fit(X_train, y_train, ...)
  y_pred = model.predict(X_test)
  y_test_inv = scaler.inverse_transform(y_test)
  y_pred_inv = scaler.inverse_transform(y_pred)
  mse = mean_squared_error(y_test_inv, y_pred_inv)
  mae = mean_absolute_error(y_test_inv, y_pred_inv)
  r2 = r2_score(y_test_inv, y_pred_inv)
  ... plt.savefig(f'../outputs/{crypto_name}_prediction.png') ...
  return model, {'MSE': mse, 'MAE': mae, 'R2': r2}
  \<close>
\<close>

definition train_and_evaluate_model ::
  "'m env \<Rightarrow> string \<Rightarrow> py_error + ('m \<times> (string \<times> cell) list)"
where
  "train_and_evaluate_model env crypto_name =
     (case load_features (files env) crypto_name of Inl e \<Rightarrow> Inl e | Inr df \<Rightarrow>
      case getitem df ''price'' of Inl e \<Rightarrow> Inl e | Inr price \<Rightarrow>
      case fit_transform price of Inl e \<Rightarrow> Inl e | Inr (scaler, scaled_data) \<Rightarrow>
      case create_sequences scaled_data 30 of Inl e \<Rightarrow> Inl e | Inr (X, y) \<Rightarrow>
      case train_test_split X y (1 / 5) of Inl e \<Rightarrow> Inl e
      | Inr (X_train, X_test, y_train, y_test) \<Rightarrow>
      case fit env X_train y_train of Inl e \<Rightarrow> Inl e | Inr model \<Rightarrow>
      (let y_pred = map (predict env model) X_test;
           y_test_inv = inverse_transform scaler y_test;
           y_pred_inv = inverse_transform scaler y_pred
       in case mean_squared_error y_test_inv y_pred_inv of Inl e \<Rightarrow> Inl e | Inr mse \<Rightarrow>
          case mean_absolute_error y_test_inv y_pred_inv of Inl e \<Rightarrow> Inl e | Inr mae \<Rightarrow>
          case r2_score y_test_inv y_pred_inv of Inl e \<Rightarrow> Inl e | Inr r2 \<Rightarrow>
          case savefig env (''../outputs/'' @ crypto_name @ ''_prediction.png'') of
            Some e \<Rightarrow> Inl e
          | None \<Rightarrow> Inr (model, [(''MSE'', Val mse), (''MAE'', Val mae), (''R2'', r2)])))"

subsection \<open>Main loop\<close>

text \<open>
  \<^verbatim>\<open>
  def main():
      cryptocurrencies = ['bitcoin', 'ethereum', 'binancecoin']
      model_results = {}
      for crypto in cryptocurrencies:
          print(f"Training model for {crypto}...")
          model, metrics = train_and_evaluate_model(crypto)
          model.save(f'../models/{crypto}_lstm_model.h5')
          model_results[crypto] = metrics
      for crypto, metrics in model_results.items():
          print(f"\n{crypto.capitalize()} Model Performance:")
          for metric, value in metrics.items():
              print(f"{metric}: {value}")
  \<close>
  The output is the list of lines that these \<open>print\<close> statements write, one constructor
  for each of the three; the dictionary keeps its keys in insertion order. The list of
  assets is a parameter of \<open>run\<close>, and \<open>main\<close> is \<open>run\<close> on the list of the source.
\<close>

datatype printed = Training string | Performance string | Metric string cell

text \<open>The two statements of the loop body that may raise: training, then saving.\<close>

definition train_and_save :: "'m env \<Rightarrow> string \<Rightarrow> py_error + (string \<times> cell) list" where
  "train_and_save env crypto =
     (case train_and_evaluate_model env crypto of
        Inl e \<Rightarrow> Inl e
      | Inr (model, metrics) \<Rightarrow>
          (case save env model (''../models/'' @ crypto @ ''_lstm_model.h5'') of
             Some e \<Rightarrow> Inl e
           | None \<Rightarrow> Inr metrics))"

fun train_models ::
  "'m env \<Rightarrow> string list \<Rightarrow> printed list \<Rightarrow> (string \<times> (string \<times> cell) list) list \<Rightarrow>
     printed list \<times> (py_error + (string \<times> (string \<times> cell) list) list)"
where
  "train_models env [] out model_results = (out, Inr model_results)"
| "train_models env (crypto # rest) out model_results =
     (let out1 = out @ [Training crypto]
      in case train_and_save env crypto of
           Inl e \<Rightarrow> (out1, Inl e)
         | Inr metrics \<Rightarrow>
             train_models env rest out1 (AList.update crypto metrics model_results))"

definition print_results :: "(string \<times> (string \<times> cell) list) list \<Rightarrow> printed list" where
  "print_results model_results =
     concat (map (\<lambda>(crypto, metrics).
                    Performance crypto # map (\<lambda>(metric, v). Metric metric v) metrics)
               model_results)"

definition run :: "'m env \<Rightarrow> string list \<Rightarrow> printed list \<times> py_error option" where
  "run env cryptocurrencies =
     (case train_models env cryptocurrencies [] [] of
        (out, Inl e) \<Rightarrow> (out, Some e)
      | (out, Inr model_results) \<Rightarrow> (out @ print_results model_results, None))"

definition main :: "'m env \<Rightarrow> printed list \<times> py_error option" where
  "main env = run env [''bitcoin'', ''ethereum'', ''binancecoin'']"

subsection \<open>Example inputs\<close>

text \<open>
  A frame as the loader reads it, with a timestamp and a price column, and an
  environment whose only file holds 43 daily prices of one asset, whose network
  predicts the last value of the window, and whose writes succeed.
\<close>

definition example_frame :: "real list \<Rightarrow> dataframe" where
  "example_frame ps =
     \<lparr>index = range_index (length ps),
      columns = [(''timestamp'', map (\<lambda>i. Val (real i)) [0 ..< length ps]),
                 (''price'', map Val ps)]\<rparr>"

text \<open>
  A frame that already has a column named like a derived one: a lag column written by
  an earlier stage, its first cell filled with 0.
\<close>

definition example_lagged_frame :: dataframe where
  "example_lagged_frame =
     \<lparr>index = range_index 3,
      columns = [(''timestamp'', [Val 0, Val 1, Val 2]),
                 (''price'', [Val 10, Val 20, Val 30]),
                 (''price_lag_1'', [Val 0, Val 10, Val 20])]\<rparr>"

definition example_prices :: "real list" where
  "example_prices =
     [101, 103, 102, 105, 107, 106, 109, 108, 111, 110, 113, 115, 114, 117, 116,
      119, 121, 120, 123, 122, 125, 127, 126, 129, 128, 131, 133, 132, 135, 134,
      137, 139, 138, 141, 140, 136, 130, 124, 118, 112, 140, 142, 143]"

definition example_files :: "string \<Rightarrow> dataframe option" where
  "example_files path =
     (if path = ''../data/processed/bitcoin_processed.csv''
      then Some (example_frame example_prices) else None)"

definition example_env :: "unit env" where
  "example_env =
     \<lparr>files = example_files, fit = (\<lambda>X y. Inr ()), predict = (\<lambda>model w. last w),
      savefig = (\<lambda>path. None), save = (\<lambda>model path. None)\<rparr>"

section \<open>Properties\<close>

subsection \<open>Windowing\<close>

lemma list_getitem_nat:
  "k < length xs \<Longrightarrow> list_getitem xs (int k) = Inr (xs ! k)"
  by (simp add: list_getitem_def)

lemma list_slice_window: "list_slice xs i (i + n) = take n (drop i xs)"
  by (simp add: list_slice_def)

lemma create_sequences_loop_closed:
  "\<forall>i \<in> set is. i + L < length data \<Longrightarrow>
   create_sequences_loop data L is (X, y) =
     Inr (X @ map (\<lambda>i. take L (drop i data)) is, y @ map (\<lambda>i. data ! (i + L)) is)"
proof (induction "is" arbitrary: X y)
  case Nil
  then show ?case by simp
next
  case (Cons i rest)
  then have "i + L < length data" by simp
  then have "list_getitem data (int (i + L)) = Inr (data ! (i + L))"
    by (rule list_getitem_nat)
  with Cons show ?case
    by (simp add: list_slice_window)
qed

lemma create_sequences_closed:
  "create_sequences data L =
     Inr (map (\<lambda>i. take L (drop i data)) [0 ..< length data - L],
          map (\<lambda>i. data ! (i + L)) [0 ..< length data - L])"
proof -
  have "\<forall>i \<in> set [0 ..< length data - L]. i + L < length data"
    by auto
  from create_sequences_loop_closed [OF this, of "[]" "[]"]
  show ?thesis by (simp add: create_sequences_def)
qed

text \<open>
  C1. For a series of length N and window length L, \<open>create_sequences\<close> returns
  (never raises) with exactly N - L pairs when N > L: input i is the slice
  \<open>series[i : i+L]\<close>, of length L, and target i is \<open>series[i+L]\<close>. When N \<le> L the
  result is the empty pair of arrays.
\<close>

theorem create_sequences_pairs:
  "\<exists>X y. create_sequences data L = Inr (X, y) \<and>
     (L < length data \<longrightarrow>
        length X = length data - L \<and> length y = length data - L \<and>
        (\<forall>i < length data - L.
           X ! i = list_slice data i (i + L) \<and> X ! i = take L (drop i data) \<and>
           length (X ! i) = L \<and> y ! i = data ! (i + L))) \<and>
     (length data \<le> L \<longrightarrow> X = [] \<and> y = [])"
  by (simp add: create_sequences_closed list_slice_window)

theorem create_sequences_pairs_witness:
  "create_sequences [10, 20, 30, 40, 50 :: int] 3 = Inr ([[10, 20, 30], [20, 30, 40]], [40, 50]) \<and>
   create_sequences [10, 20 :: int] 2 = Inr ([], []) \<and>
   create_sequences [10, 20 :: int] 5 = Inr ([], [])"
proof -
  have eval: "[0 ..< 2] = [0, Suc 0]"
    by (simp add: upt_conv_Cons)
  from create_sequences_pairs [of "[10, 20, 30, 40, 50 :: int]" 3]
  obtain X y where r: "create_sequences [10, 20, 30, 40, 50 :: int] 3 = Inr (X, y)"
    and n: "length X = 2" "length y = 2"
    by auto
  have "create_sequences [10, 20, 30, 40, 50 :: int] 3 =
      Inr ([[10, 20, 30], [20, 30, 40]], [40, 50])"
    by (simp add: create_sequences_def eval list_getitem_def list_slice_def)
  moreover have "create_sequences [10, 20 :: int] 2 = Inr ([], [])"
    by (simp add: create_sequences_def)
  moreover have "create_sequences [10, 20 :: int] 5 = Inr ([], [])"
    by (simp add: create_sequences_def)
  ultimately show ?thesis by simp
qed

text \<open>
  C10 (amended). Consecutive windows overlap: for a window length L of at least one, a
  series longer than L + 1 and every i below N - L - 1, window i + 1 is window i moved
  by one place, and target i is the last element of window i + 1. For L = 0 the windows
  are empty and have no last element: reading it raises IndexError.
\<close>

theorem create_sequences_overlap:
  assumes "1 \<le> L" and "L + 1 < length data" and "i < length data - L - 1"
    and "create_sequences data L = Inr (X, y)"
  shows "(\<forall>j < L - 1. X ! (i + 1) ! j = X ! i ! (j + 1)) \<and>
         list_getitem (X ! (i + 1)) (int L - 1) = Inr (y ! i) \<and>
         y ! i = last (X ! (i + 1))"
proof -
  let ?n = "length data - L"
  from assms(4) have X: "X = map (\<lambda>i. take L (drop i data)) [0 ..< ?n]"
    and y: "y = map (\<lambda>i. data ! (i + L)) [0 ..< ?n]"
    by (simp_all add: create_sequences_closed)
  from assms have i: "i < ?n" "Suc i < ?n" by simp_all
  have Xi: "X ! i = take L (drop i data)" and Xi1: "X ! Suc i = take L (drop (Suc i) data)"
    and yi: "y ! i = data ! (i + L)"
    using i by (simp_all add: X y)
  have len: "length (X ! Suc i) = L"
    using assms i by (simp add: Xi1)
  have shiftw: "\<forall>j < L - 1. X ! Suc i ! j = X ! i ! Suc j"
    using assms i by (simp add: Xi Xi1)
  have lastw: "X ! Suc i ! (L - 1) = data ! (i + L)"
    using assms i by (simp add: Xi1)
  have "list_getitem (X ! Suc i) (int L - 1) = Inr (X ! Suc i ! (L - 1))"
    using assms(1) len by (simp add: list_getitem_def nat_diff_distrib')
  moreover have "last (X ! Suc i) = X ! Suc i ! (L - 1)"
    using assms(1) len by (metis last_conv_nth length_0_conv not_one_le_zero)
  ultimately show ?thesis
    using shiftw lastw yi by simp
qed

theorem create_sequences_overlap_witness:
  "(1::nat) \<le> 3 \<and> 3 + 1 < length [10, 20, 30, 40, 50 :: int] \<and>
   (0::nat) < length [10, 20, 30, 40, 50 :: int] - 3 - 1 \<and>
   create_sequences [10, 20, 30, 40, 50 :: int] 3 = Inr ([[10, 20, 30], [20, 30, 40]], [40, 50]) \<and>
   [[10, 20, 30], [20, 30, 40 :: int]] ! (0 + 1) ! 0 = [[10, 20, 30], [20, 30, 40]] ! 0 ! (0 + 1) \<and>
   [[10, 20, 30], [20, 30, 40 :: int]] ! (0 + 1) ! 1 = [[10, 20, 30], [20, 30, 40]] ! 0 ! (1 + 1) \<and>
   list_getitem ([[10, 20, 30], [20, 30, 40 :: int]] ! (0 + 1)) (int 3 - 1) = Inr ([40, 50] ! 0)"
proof -
  have eval: "[0 ..< 2] = [0, Suc 0]"
    by (simp add: upt_conv_Cons)
  have r: "create_sequences [10, 20, 30, 40, 50 :: int] 3 =
      Inr ([[10, 20, 30], [20, 30, 40]], [40, 50])"
    by (simp add: create_sequences_def eval list_getitem_def list_slice_def)
  have "(1::nat) \<le> 3" and "3 + 1 < length [10, 20, 30, 40, 50 :: int]"
    and "(0::nat) < length [10, 20, 30, 40, 50 :: int] - 3 - 1"
    by simp_all
  from create_sequences_overlap [OF this r] r show ?thesis
    by simp
qed

theorem create_sequences_overlap_counterexample:
  "create_sequences [1, 2 :: int] 0 = Inr ([[], []], [1, 2]) \<and>
   (0::nat) + 1 < length [1, 2 :: int] \<and>
   (0::nat) < length [1, 2 :: int] - 0 - 1 \<and>
   list_getitem ([[], []] ! (0 + 1)) (int 0 - 1) = (Inl IndexError :: py_error + int) \<and>
   list_getitem ([[], []] ! (0 + 1)) (int 0 - 1) \<noteq> Inr ([1, 2 :: int] ! 0)"
proof -
  have eval: "[0 ..< 2] = [0, Suc 0]"
    by (simp add: upt_conv_Cons)
  show ?thesis
    by (simp add: create_sequences_def eval list_getitem_def list_slice_def)
qed

subsection \<open>Scaling\<close>

lemma fold_min_hd:
  assumes "xs \<noteq> []"
  shows "fold min xs (hd xs) = Min (set xs)"
proof (cases xs)
  case Nil
  with assms show ?thesis by simp
next
  case (Cons a list)
  have "Min (set (a # list)) = fold min list a"
    by (rule Min.set_eq_fold)
  with Cons show ?thesis by simp
qed

lemma fold_max_hd:
  assumes "xs \<noteq> []"
  shows "fold max xs (hd xs) = Max (set xs)"
proof (cases xs)
  case Nil
  with assms show ?thesis by simp
next
  case (Cons a list)
  have "Max (set (a # list)) = fold max list a"
    by (rule Max.set_eq_fold)
  with Cons show ?thesis by simp
qed

lemma handle_zeros_in_scale_pos: "0 < handle_zeros_in_scale r"
proof -
  have "(0::real) < 10 * machine_epsilon"
    by (simp add: machine_epsilon_def)
  then show ?thesis
    by (auto simp: handle_zeros_in_scale_def)
qed

lemma scaler_fit_Inr:
  assumes "scaler_fit xs = Inr sc"
  shows "xs \<noteq> []" and "data_min sc = Min (set xs)" and "data_max sc = Max (set xs)"
    and "scale sc =
      (if overflow_threshold \<le> data_max sc - data_min sc then 0
       else 1 / handle_zeros_in_scale (data_max sc - data_min sc))"
    and "min_shift sc = 0 - data_min sc * scale sc"
proof -
  show ne: "xs \<noteq> []"
    using assms by (auto simp: scaler_fit_def)
  with assms have sc: "sc =
      (if overflow_threshold \<le> Max (set xs) - Min (set xs)
       then \<lparr>data_min = Min (set xs), data_max = Max (set xs), scale = 0, min_shift = 0\<rparr>
       else \<lparr>data_min = Min (set xs), data_max = Max (set xs),
          scale = 1 / handle_zeros_in_scale (Max (set xs) - Min (set xs)),
          min_shift = 0 - Min (set xs) * (1 / handle_zeros_in_scale (Max (set xs) - Min (set xs)))\<rparr>)"
    by (simp add: scaler_fit_def Let_def fold_min_hd fold_max_hd split: if_splits)
  show "data_min sc = Min (set xs)" and "data_max sc = Max (set xs)"
    by (simp_all add: sc)
  show "scale sc =
      (if overflow_threshold \<le> data_max sc - data_min sc then 0
       else 1 / handle_zeros_in_scale (data_max sc - data_min sc))"
    by (simp add: sc)
  show "min_shift sc = 0 - data_min sc * scale sc"
    by (simp add: sc)
qed

lemma scaler_fit_scale_nonzero:
  assumes "scaler_fit xs = Inr sc" and "data_max sc - data_min sc < overflow_threshold"
  shows "scale sc \<noteq> 0"
  using scaler_fit_Inr(4) [OF assms(1)] assms(2) handle_zeros_in_scale_pos [of "data_max sc - data_min sc"]
  by simp

lemma scaler_fit_scale_zero:
  assumes "scaler_fit xs = Inr sc" and "overflow_threshold \<le> data_max sc - data_min sc"
  shows "scale sc = 0" and "min_shift sc = 0"
  using scaler_fit_Inr(4,5) [OF assms(1)] assms(2) by simp_all

lemma inverse_transform_transform:
  "scale sc \<noteq> 0 \<Longrightarrow> inverse_transform sc (transform sc vs) = map Val vs"
  by (induction vs) (simp_all add: inverse_transform_def transform_def)

lemma inverse_transform_zero_scale:
  assumes "scale sc = 0" and "c \<in> set (inverse_transform sc ys)"
  shows "c = NaN \<or> c = Infinite"
  using assms by (auto simp: inverse_transform_def)


lemma small_below_overflow_threshold: "x \<le> 2 ^ 1023 \<Longrightarrow> x < overflow_threshold"
proof -
  assume x: "x \<le> 2 ^ 1023"
  have "(2::real) ^ 970 < 2 ^ 1023"
    by (rule power_strict_increasing) simp_all
  moreover have "(2::real) ^ 1024 = 2 ^ 1023 + 2 ^ 1023"
    by (simp add: power_Suc [symmetric] del: power_Suc)
  ultimately show ?thesis
    using x by (simp add: overflow_threshold_def)
qed





subsection \<open>Splitting\<close>

lemma map_nth_upt: "k \<le> length xs \<Longrightarrow> map ((!) xs) [0 ..< k] = take k xs"
  by (rule nth_equalityI) simp_all

lemma map_nth_upt_drop: "map ((!) xs) [k ..< length xs] = drop k xs"
  by (rule nth_equalityI) simp_all

lemma validate_shuffle_split_Inr:
  assumes "validate_shuffle_split n ts = Inr (n_train, n_test)"
  shows "0 < n_train" and "n_train + n_test = n"
proof -
  from assms have ts: "0 < ts" "ts < 1"
    by (auto simp: validate_shuffle_split_def split: if_splits)
  from assms ts have nt: "n_test = nat \<lceil>ts * real n\<rceil>" and ntr: "n_train = n - n_test"
    and pos: "n_train \<noteq> 0"
    by (auto simp: validate_shuffle_split_def Let_def split: if_splits)
  from pos show "0 < n_train" by simp
  from pos ntr show "n_train + n_test = n" by simp
qed

lemma split_indices_5:
  assumes "n = 5"
  shows "split_indices n (1 / 5) = Inr ([0, 1, 2, 3], [4])"
  unfolding assms
proof -
  have "validate_shuffle_split 5 (1 / 5) = Inr (4, 1)"
    by (simp add: validate_shuffle_split_def)
  then show "split_indices 5 (1 / 5) = Inr ([0, 1, 2, 3], [4])"
    by (simp add: split_indices_def upt_conv_Cons)
qed

lemma train_test_split_take_drop:
  assumes "train_test_split X y ts = Inr (X_train, X_test, y_train, y_test)"
  shows "\<exists>n. 0 < n \<and> n \<le> length X \<and> length y = length X \<and>
           split_indices (length X) ts = Inr ([0 ..< n], [n ..< length X]) \<and>
           X_train = take n X \<and> X_test = drop n X \<and>
           y_train = take n y \<and> y_test = drop n y"
proof -
  from assms have len: "length X = length y"
    by (auto simp: train_test_split_def split: if_splits)
  from assms len obtain n_train n_test where
    v: "validate_shuffle_split (length X) ts = Inr (n_train, n_test)"
    by (auto simp: train_test_split_def split_indices_def split: sum.splits)
  note n = validate_shuffle_split_Inr [OF v]
  let ?train = "[0 ..< n_train]" and ?test = "[n_train ..< length X]"
  from n have test: "[n_train ..< n_train + n_test] = ?test" by simp
  have si: "split_indices (length X) ts = Inr (?train, ?test)"
    by (simp add: split_indices_def v test)
  with assms len have parts: "X_train = map ((!) X) ?train" "X_test = map ((!) X) ?test"
    "y_train = map ((!) y) ?train" "y_test = map ((!) y) ?test"
    by (simp_all add: train_test_split_def)
  from n have le: "n_train \<le> length X" by simp
  have Xtr: "X_train = take n_train X" and ytr: "y_train = take n_train y"
    using le len by (simp_all add: parts map_nth_upt)
  have Xte: "X_test = drop n_train X" and yte: "y_test = drop n_train y"
    using map_nth_upt_drop [of X n_train] map_nth_upt_drop [of y n_train]
    by (simp_all add: parts len)
  from n(1) le len si Xtr Xte ytr yte show ?thesis
    by auto
qed

text \<open>
  C3. The split keeps the chronological order: nothing is shuffled, the training set is
  the windows before a split point and the test set the windows from it on, so the
  windows are the training set followed by the test set, and every test index is
  greater than every training index.
\<close>

theorem train_test_split_chronological:
  assumes "train_test_split X y ts = Inr (X_train, X_test, y_train, y_test)"
  shows "\<exists>train test.
           split_indices (length X) ts = Inr (train, test) \<and>
           train = [0 ..< length X_train] \<and> test = [length X_train ..< length X] \<and>
           X_train = map ((!) X) train \<and> X_test = map ((!) X) test \<and>
           y_train = map ((!) y) train \<and> y_test = map ((!) y) test \<and>
           (\<forall>i \<in> set train. \<forall>j \<in> set test. i < j) \<and>
           X_train \<noteq> [] \<and> X = X_train @ X_test \<and> y = y_train @ y_test \<and>
           length y_train = length X_train"
proof -
  from train_test_split_take_drop [OF assms] obtain n where n: "0 < n" "n \<le> length X"
    and len: "length y = length X"
    and si: "split_indices (length X) ts = Inr ([0 ..< n], [n ..< length X])"
    and Xtr: "X_train = take n X" and Xte: "X_test = drop n X"
    and ytr: "y_train = take n y" and yte: "y_test = drop n y"
    by blast
  have ltr: "length X_train = n"
    using n by (simp add: Xtr)
  have ne: "X_train \<noteq> []"
    using ltr n(1) by auto
  have order: "\<forall>i \<in> set [0 ..< length X_train]. \<forall>j \<in> set [length X_train ..< length X]. i < j"
    by simp
  have leny: "length y_train = length X_train"
    using n len by (simp add: Xtr ytr)
  have appX: "X = X_train @ X_test" and appy: "y = y_train @ y_test"
    by (simp_all add: Xtr Xte ytr yte)
  have "X_train = map ((!) X) [0 ..< length X_train]"
    and "X_test = map ((!) X) [length X_train ..< length X]"
    and "y_train = map ((!) y) [0 ..< length X_train]"
    and "y_test = map ((!) y) [length X_train ..< length X]"
    unfolding ltr using n map_nth_upt_drop [of X n] map_nth_upt_drop [of y n]
    by (simp_all add: Xtr Xte ytr yte map_nth_upt len)
  with si [folded ltr] ne order leny appX appy show ?thesis
    by blast
qed

theorem train_test_split_chronological_witness:
  "train_test_split [10, 20, 30, 40, 50 :: int] [1, 2, 3, 4, 5 :: int] (1 / 5) =
     Inr ([10, 20, 30, 40], [50], [1, 2, 3, 4], [5]) \<and>
   split_indices (length [10, 20, 30, 40, 50 :: int]) (1 / 5) = Inr ([0, 1, 2, 3], [4]) \<and>
   [10, 20, 30, 40, 50 :: int] = [10, 20, 30, 40] @ [50]"
proof -
  have r: "train_test_split [10, 20, 30, 40, 50 :: int] [1, 2, 3, 4, 5 :: int] (1 / 5) =
     Inr ([10, 20, 30, 40], [50], [1, 2, 3, 4], [5])"
    by (simp add: train_test_split_def split_indices_5)
  have s: "split_indices (length [10, 20, 30, 40, 50 :: int]) (1 / 5) = Inr ([0, 1, 2, 3], [4])"
    by (simp add: split_indices_5)
  from train_test_split_chronological [OF r]
  have w: "[10, 20, 30, 40, 50 :: int] = [10, 20, 30, 40] @ [50]"
    by (elim exE conjE)
  from r s w show ?thesis
    by (intro conjI)
qed

subsection \<open>Metrics\<close>

lemma sum_list_map_mset_cong:
  fixes g :: "'a \<Rightarrow> real"
  assumes "mset xs = mset ys"
  shows "sum_list (map g xs) = sum_list (map g ys)"
proof -
  have "sum_list (map g xs) = sum_mset (image_mset g (mset xs))"
    by (simp flip: sum_mset_sum_list)
  also have "\<dots> = sum_mset (image_mset g (mset ys))"
    by (simp only: assms)
  also have "\<dots> = sum_list (map g ys)"
    by (simp flip: sum_mset_sum_list)
  finally show ?thesis .
qed

lemma map2_pairs:
  "map2 f (map fst rs) (map snd rs) = map (\<lambda>(t, p). f t p) rs"
  by (induction rs) auto

lemma residual_mset_cong:
  fixes f :: "real \<Rightarrow> real \<Rightarrow> real"
  assumes "mset rs' = mset rs"
  shows "sum_list (map2 f (map fst rs') (map snd rs')) = sum_list (map2 f (map fst rs) (map snd rs))"
  unfolding map2_pairs using assms by (rule sum_list_map_mset_cong)

lemma truth_mset_cong:
  fixes h :: "real \<Rightarrow> real"
  assumes "mset rs' = mset rs"
  shows "sum_list (map h (map fst rs')) = sum_list (map h (map fst rs))"
proof -
  have "sum_list (map (h \<circ> fst) rs') = sum_list (map (h \<circ> fst) rs)"
    using assms by (rule sum_list_map_mset_cong)
  then show ?thesis by simp
qed

lemma length_mset_cong: "mset ps' = mset ps \<Longrightarrow> length ps' = length ps"
  by (metis size_mset)

lemma finite_column_Val: "finite_column (map Val xs) = Inr xs"
  by (induction xs) simp_all

lemma finite_column_Inr: "finite_column col = Inr xs \<Longrightarrow> col = map Val xs"
proof (induction col arbitrary: xs rule: finite_column.induct)
  case 1
  then show ?case by simp
next
  case (2 v cs)
  then show ?case by (auto split: sum.splits)
qed simp_all

lemma finite_column_cases:
  "finite_column cs = Inl ValueError \<or> (\<exists>xs. finite_column cs = Inr xs)"
  by (induction cs rule: finite_column.induct) (auto split: sum.splits)

text \<open>The input check, on finite arrays and on arrays that are not both finite.\<close>

lemma check_reg_targets_Val:
  "check_reg_targets (map Val t) (map Val p) =
     (if length t \<noteq> length p \<or> t = [] then Inl ValueError else Inr (t, p))"
  by (simp add: check_reg_targets_def finite_column_Val)

lemma check_reg_targets_Inr:
  assumes "check_reg_targets y_true y_pred = Inr (t, p)"
  shows "y_true = map Val t" and "y_pred = map Val p" and "length t = length p" and "t \<noteq> []"
proof -
  from assms have l: "length y_true = length y_pred" and ne: "y_true \<noteq> []"
    and ft: "finite_column y_true = Inr t" and fp: "finite_column y_pred = Inr p"
    by (auto simp: check_reg_targets_def split: if_splits sum.splits)
  show t: "y_true = map Val t" and p: "y_pred = map Val p"
    using ft fp by (simp_all add: finite_column_Inr)
  from l show "length t = length p"
    unfolding t p by simp
  from ne show "t \<noteq> []"
    unfolding t by simp
qed

lemma check_reg_targets_cases:
  "check_reg_targets y_true y_pred = Inl ValueError \<or>
   (\<exists>t p. check_reg_targets y_true y_pred = Inr (t, p))"
  using finite_column_cases [of y_true] finite_column_cases [of y_pred]
  by (auto simp: check_reg_targets_def)

lemma check_reg_targets_not_finite:
  assumes "\<not> (\<exists>rs. ps = map (map_prod Val Val) rs)"
  shows "check_reg_targets (map fst ps) (map snd ps) = Inl ValueError"
proof (rule ccontr)
  assume "check_reg_targets (map fst ps) (map snd ps) \<noteq> Inl ValueError"
  with check_reg_targets_cases [of "map fst ps" "map snd ps"]
  obtain t p where "check_reg_targets (map fst ps) (map snd ps) = Inr (t, p)"
    by blast
  from check_reg_targets_Inr [OF this]
  have t: "map fst ps = map Val t" and p: "map snd ps = map Val p" and l: "length t = length p"
    by simp_all
  have "ps = zip (map fst ps) (map snd ps)"
    by (simp add: zip_map_fst_snd)
  also have "\<dots> = map (map_prod Val Val) (zip t p)"
    unfolding t p by (simp add: zip_map_map map_prod_def case_prod_beta)
  finally show False
    using assms by blast
qed

lemma finite_pairs_mset:
  assumes "mset ps' = mset (map (map_prod Val Val) rs)"
  shows "\<exists>rs'. ps' = map (map_prod Val Val) rs' \<and> mset rs' = mset rs"
proof -
  have "set ps' = set (map (map_prod Val Val) rs)"
    using assms by (metis set_mset_mset)
  then have "\<forall>q \<in> set ps'. \<exists>r. q = map_prod Val Val r"
    by auto
  then obtain rs' where rs': "ps' = map (map_prod Val Val) rs'"
    unfolding ex_map_conv [symmetric] by blast
  have inj: "inj (map_prod Val Val :: real \<times> real \<Rightarrow> cell \<times> cell)"
    by (auto simp: inj_on_def)
  from assms have "image_mset (map_prod Val Val) (mset rs') = image_mset (map_prod Val Val) (mset rs)"
    by (simp add: rs')
  then have "image_mset (inv (map_prod Val Val)) (image_mset (map_prod Val Val) (mset rs')) =
      image_mset (inv (map_prod Val Val)) (image_mset (map_prod Val Val) (mset rs))"
    by (rule arg_cong)
  then have "mset rs' = mset rs"
    using inj by (simp add: multiset.map_comp inv_o_cancel)
  with rs' show ?thesis by blast
qed

lemma fst_finite_pairs: "map fst (map (map_prod Val Val) rs) = map Val (map fst rs)"
  and snd_finite_pairs: "map snd (map (map_prod Val Val) rs) = map Val (map snd rs)"
  by simp_all

text \<open>The three metrics on finite arrays.\<close>

lemma mean_squared_error_Val:
  "mean_squared_error (map Val t) (map Val p) =
     (if length t \<noteq> length p \<or> t = [] then Inl ValueError
      else Inr (sum_list (map2 (\<lambda>t p. (t - p)\<^sup>2) t p) / real (length t)))"
  by (simp add: mean_squared_error_def check_reg_targets_Val)

lemma mean_absolute_error_Val:
  "mean_absolute_error (map Val t) (map Val p) =
     (if length t \<noteq> length p \<or> t = [] then Inl ValueError
      else Inr (sum_list (map2 (\<lambda>t p. \<bar>p - t\<bar>) t p) / real (length t)))"
  by (simp add: mean_absolute_error_def check_reg_targets_Val)

lemma r2_score_Val:
  "r2_score (map Val t) (map Val p) =
     (if length t \<noteq> length p \<or> t = [] then Inl ValueError
      else if length p < 2 then Inr NaN
      else let numerator = sum_list (map2 (\<lambda>t p. (t - p)\<^sup>2) t p);
               average = sum_list t / real (length t);
               denominator = sum_list (map (\<lambda>t. (t - average)\<^sup>2) t)
           in if denominator \<noteq> 0 \<and> numerator \<noteq> 0 then Inr (Val (1 - numerator / denominator))
              else if numerator \<noteq> 0 \<and> denominator = 0 then Inr (Val 0)
              else Inr (Val 1))"
  by (simp add: r2_score_def check_reg_targets_Val)

lemma metrics_mset_cong_finite:
  assumes "mset rs' = mset rs"
  shows "mean_squared_error (map Val (map fst rs')) (map Val (map snd rs')) =
      mean_squared_error (map Val (map fst rs)) (map Val (map snd rs))"
    and "mean_absolute_error (map Val (map fst rs')) (map Val (map snd rs')) =
      mean_absolute_error (map Val (map fst rs)) (map Val (map snd rs))"
    and "r2_score (map Val (map fst rs')) (map Val (map snd rs')) =
      r2_score (map Val (map fst rs)) (map Val (map snd rs))"
proof -
  from assms have e: "rs' = [] \<longleftrightarrow> rs = []"
    by (metis mset_zero_iff)
  note l = length_mset_cong [OF assms]
  have sq: "sum_list (map2 (\<lambda>t p. (t - p)\<^sup>2) (map fst rs') (map snd rs')) =
      sum_list (map2 (\<lambda>t p. (t - p)\<^sup>2) (map fst rs) (map snd rs))"
    using assms by (rule residual_mset_cong)
  have ab: "sum_list (map2 (\<lambda>t p. \<bar>p - t\<bar>) (map fst rs') (map snd rs')) =
      sum_list (map2 (\<lambda>t p. \<bar>p - t\<bar>) (map fst rs) (map snd rs))"
    using assms by (rule residual_mset_cong)
  have avg: "sum_list (map fst rs') = sum_list (map fst rs)"
    using truth_mset_cong [OF assms, of "\<lambda>t. t"] by simp
  have den: "sum_list (map (\<lambda>t. (t - a)\<^sup>2) (map fst rs')) = sum_list (map (\<lambda>t. (t - a)\<^sup>2) (map fst rs))" for a
    using assms by (rule truth_mset_cong)
  show "mean_squared_error (map Val (map fst rs')) (map Val (map snd rs')) =
      mean_squared_error (map Val (map fst rs)) (map Val (map snd rs))"
    unfolding mean_squared_error_Val using e l sq by simp
  show "mean_absolute_error (map Val (map fst rs')) (map Val (map snd rs')) =
      mean_absolute_error (map Val (map fst rs)) (map Val (map snd rs))"
    unfolding mean_absolute_error_Val using e l ab by simp
  show "r2_score (map Val (map fst rs')) (map Val (map snd rs')) =
      r2_score (map Val (map fst rs)) (map Val (map snd rs))"
    unfolding r2_score_Val Let_def using e l sq avg den by simp
qed

lemma metrics_mset_cong:
  assumes "mset ps' = mset ps"
  shows "mean_squared_error (map fst ps') (map snd ps') = mean_squared_error (map fst ps) (map snd ps)"
    and "mean_absolute_error (map fst ps') (map snd ps') = mean_absolute_error (map fst ps) (map snd ps)"
    and "r2_score (map fst ps') (map snd ps') = r2_score (map fst ps) (map snd ps)"
proof -
  consider rs where "ps = map (map_prod Val Val) rs"
    | "\<not> (\<exists>rs. ps = map (map_prod Val Val) rs)"
    by blast
  then have "mean_squared_error (map fst ps') (map snd ps') = mean_squared_error (map fst ps) (map snd ps) \<and>
    mean_absolute_error (map fst ps') (map snd ps') = mean_absolute_error (map fst ps) (map snd ps) \<and>
    r2_score (map fst ps') (map snd ps') = r2_score (map fst ps) (map snd ps)"
  proof cases
    case 1
    from finite_pairs_mset [OF assms [unfolded 1]] obtain rs'
      where rs': "ps' = map (map_prod Val Val) rs'" and m: "mset rs' = mset rs"
      by blast
    from metrics_mset_cong_finite [OF m] show ?thesis
      unfolding 1 rs' fst_finite_pairs snd_finite_pairs by simp
  next
    case 2
    have "\<not> (\<exists>rs'. ps' = map (map_prod Val Val) rs')"
    proof
      assume "\<exists>rs'. ps' = map (map_prod Val Val) rs'"
      then obtain rs' where "ps' = map (map_prod Val Val) rs'" by blast
      with assms have "mset ps = mset (map (map_prod Val Val) rs')" by simp
      from finite_pairs_mset [OF this] 2 show False by blast
    qed
    then have "check_reg_targets (map fst ps') (map snd ps') = Inl ValueError"
      by (rule check_reg_targets_not_finite)
    moreover have "check_reg_targets (map fst ps) (map snd ps) = Inl ValueError"
      using 2 by (rule check_reg_targets_not_finite)
    ultimately show ?thesis
      by (simp add: mean_squared_error_def mean_absolute_error_def r2_score_def)
  qed
  then show "mean_squared_error (map fst ps') (map snd ps') = mean_squared_error (map fst ps) (map snd ps)"
    and "mean_absolute_error (map fst ps') (map snd ps') = mean_absolute_error (map fst ps) (map snd ps)"
    and "r2_score (map fst ps') (map snd ps') = r2_score (map fst ps) (map snd ps)"
    by simp_all
qed


lemma residual_self: "sum_list (map2 (\<lambda>t p. (t - p)\<^sup>2) (t :: real list) t) = 0"
  by (induction t) simp_all

lemma residual_nonneg: "0 \<le> sum_list (map2 (\<lambda>t p. (t - p)\<^sup>2) (t :: real list) p)"
  by (rule sum_list_nonneg) auto

lemma residual_zero_iff:
  assumes "length p = length (t :: real list)"
  shows "sum_list (map2 (\<lambda>t p. (t - p)\<^sup>2) t p) = 0 \<longleftrightarrow> p = t"
  using assms
proof (induction p t rule: list_induct2)
  case Nil
  then show ?case by simp
next
  case (Cons x xs y ys)
  have "0 \<le> (y - x)\<^sup>2" by simp
  from this residual_nonneg [of ys xs]
  have "(y - x)\<^sup>2 + sum_list (map2 (\<lambda>t p. (t - p)\<^sup>2) ys xs) = 0 \<longleftrightarrow>
      (y - x)\<^sup>2 = 0 \<and> sum_list (map2 (\<lambda>t p. (t - p)\<^sup>2) ys xs) = 0"
    by (rule add_nonneg_eq_0_iff)
  with Cons.IH show ?case by auto
qed

lemma constant_sum: "\<forall>x \<in> set t. x = c \<Longrightarrow> sum_list t = real (length t) * (c :: real)"
  by (induction t) (simp_all add: algebra_simps)

lemma constant_variance:
  assumes "\<forall>x \<in> set t. x = (c :: real)" and "t \<noteq> []"
  shows "sum_list (map (\<lambda>x. (x - sum_list t / real (length t))\<^sup>2) t) = 0"
proof -
  from assms have avg: "sum_list t / real (length t) = c"
    by (simp add: constant_sum)
  have "sum_list (map (\<lambda>x. (x - c)\<^sup>2) t) = 0"
    using assms(1) by (induction t) simp_all
  then show ?thesis by (simp add: avg)
qed

lemma r2_score_perfect: "2 \<le> length t \<Longrightarrow> r2_score (map Val t) (map Val t) = Inr (Val 1)"
  by (auto simp: r2_score_Val residual_self)

lemma r2_score_constant_truth:
  assumes "2 \<le> length t" and "length p = length t" and "\<forall>x \<in> set t. x = c"
  shows "r2_score (map Val t) (map Val p) = Inr (Val (if p = t then 1 else 0))"
proof -
  from assms(1) have ne: "t \<noteq> []" by auto
  have den: "sum_list (map (\<lambda>x. (x - sum_list t / real (length t))\<^sup>2) t) = 0"
    using assms(3) ne by (rule constant_variance)
  show ?thesis
    using assms(1,2) ne residual_zero_iff [OF assms(2)]
    by (simp add: r2_score_Val den)
qed

lemma r2_score_single: "r2_score [Val x] [Val y] = Inr NaN"
  using r2_score_Val [of "[x]" "[y]"] by simp

lemma metrics_ValueError:
  assumes "length y_true \<noteq> length y_pred \<or> y_true = []"
  shows "mean_squared_error y_true y_pred = Inl ValueError"
    and "mean_absolute_error y_true y_pred = Inl ValueError"
    and "r2_score y_true y_pred = Inl ValueError"
  using assms
  by (auto simp: mean_squared_error_def mean_absolute_error_def r2_score_def check_reg_targets_def)

text \<open>
  C8 (amended). In exact arithmetic (rounding and overflow are not modelled): the three
  metrics are functions of the multiset of (truth, prediction) pairs, so a permutation
  applied to both arrays leaves each of them unchanged. With at least two samples,
  \<open>r2_score\<close> is 1 when the predictions equal the truth, and for a constant truth it is
  defined: 1 when the predictions equal the truth and 0 otherwise. For a single sample
  \<open>r2_score\<close> is NaN, and for empty arrays or arrays of different lengths each of the
  three metrics raises ValueError.
\<close>

theorem metrics_order_invariant:
  "(mset ps' = mset ps \<longrightarrow>
      mean_squared_error (map fst ps') (map snd ps') = mean_squared_error (map fst ps) (map snd ps) \<and>
      mean_absolute_error (map fst ps') (map snd ps') = mean_absolute_error (map fst ps) (map snd ps) \<and>
      r2_score (map fst ps') (map snd ps') = r2_score (map fst ps) (map snd ps)) \<and>
   (2 \<le> length t \<longrightarrow> r2_score (map Val t) (map Val t) = Inr (Val 1)) \<and>
   (2 \<le> length t \<and> length p = length t \<and> (\<forall>x \<in> set t. x = c) \<longrightarrow>
      r2_score (map Val t) (map Val p) = Inr (Val (if p = t then 1 else 0))) \<and>
   r2_score [Val x] [Val y] = Inr NaN \<and>
   (length y_true \<noteq> length y_pred \<or> y_true = [] \<longrightarrow>
      mean_squared_error y_true y_pred = Inl ValueError \<and>
      mean_absolute_error y_true y_pred = Inl ValueError \<and>
      r2_score y_true y_pred = Inl ValueError)"
  using metrics_mset_cong [of ps' ps] r2_score_perfect [of t] r2_score_constant_truth [of t p c]
    r2_score_single [of x y] metrics_ValueError [of y_true y_pred]
  by blast

theorem metrics_order_invariant_witness:
  "mset [(Val 2, Val 3), (Val 1, Val 1)] = mset [(Val 1, Val 1), (Val 2, Val 3)] \<and>
   mean_squared_error [Val 2, Val 1] [Val 3, Val 1] = Inr (1 / 2) \<and>
   mean_squared_error [Val 1, Val 2] [Val 1, Val 3] = Inr (1 / 2) \<and>
   mean_absolute_error [Val 2, Val 1] [Val 3, Val 1] = Inr (1 / 2) \<and>
   mean_absolute_error [Val 1, Val 2] [Val 1, Val 3] = Inr (1 / 2) \<and>
   r2_score [Val 2, Val 1] [Val 3, Val 1] = Inr (Val (- 1)) \<and>
   r2_score [Val 1, Val 2] [Val 1, Val 3] = Inr (Val (- 1)) \<and>
   r2_score [Val 1, Val 2] [Val 1, Val 2] = Inr (Val 1) \<and>
   r2_score [Val 5, Val 5] [Val 5, Val 6] = Inr (Val 0) \<and>
   r2_score [Val 5, Val 5] [Val 5, Val 5] = Inr (Val 1) \<and>
   r2_score [Val 5] [Val 6] = Inr NaN \<and>
   mean_squared_error [Val 5, Val 5] [Val 5] = Inl ValueError \<and>
   r2_score [] [] = Inl ValueError"
proof -
  have m: "mset [(Val 2, Val 3), (Val 1, Val 1)] = mset [(Val 1, Val 1), (Val 2, Val 3)]"
    by simp
  have ev: "mean_squared_error [Val 1, Val 2] [Val 1, Val 3] = Inr (1 / 2)"
    "mean_absolute_error [Val 1, Val 2] [Val 1, Val 3] = Inr (1 / 2)"
    "r2_score [Val 1, Val 2] [Val 1, Val 3] = Inr (Val (- 1))"
    by (simp_all add: mean_squared_error_def mean_absolute_error_def r2_score_def
        check_reg_targets_def power2_eq_square)
  from metrics_order_invariant [of "[(Val 2, Val 3), (Val 1, Val 1)]" "[(Val 1, Val 1), (Val 2, Val 3)]"
      "[1, 2]" "[5, 6]" 5 5 6 "[Val 5, Val 5]" "[Val 5]"] m
  have a: "mean_squared_error [Val 2, Val 1] [Val 3, Val 1] = mean_squared_error [Val 1, Val 2] [Val 1, Val 3]"
    "mean_absolute_error [Val 2, Val 1] [Val 3, Val 1] = mean_absolute_error [Val 1, Val 2] [Val 1, Val 3]"
    "r2_score [Val 2, Val 1] [Val 3, Val 1] = r2_score [Val 1, Val 2] [Val 1, Val 3]"
    and b: "r2_score [Val 1, Val 2] [Val 1, Val 2] = Inr (Val 1)"
    and s: "r2_score [Val 5] [Val 6] = Inr NaN"
    and v: "mean_squared_error [Val 5, Val 5] [Val 5] = Inl ValueError"
    by simp_all
  from metrics_order_invariant [of "[]" "[]" "[5, 5]" "[5, 6]" 5 0 0 "[]" "[]"]
  have c: "r2_score [Val 5, Val 5] [Val 5, Val 6] = Inr (Val 0)"
    and e: "r2_score [] [] = Inl ValueError"
    by simp_all
  from metrics_order_invariant [of "[]" "[]" "[5, 5]" "[5, 5]" 5 0 0 "[]" "[]"]
  have d: "r2_score [Val 5, Val 5] [Val 5, Val 5] = Inr (Val 1)"
    by simp
  from m ev a b c d s v e show ?thesis
    by simp
qed

theorem r2_score_zero_variance_counterexample:
  "r2_score [Val 5, Val 5] [Val 5, Val 6] = Inr (Val 0) \<and>
   r2_score [Val 5, Val 5] [Val 5, Val 6] \<noteq> Inr NaN \<and>
   \<not> isl (r2_score [Val 5, Val 5] [Val 5, Val 6])"
  by (simp add: r2_score_def check_reg_targets_def)

subsection \<open>Feature engineering\<close>

lemma getitem_setitem_other:
  "name \<noteq> name' \<Longrightarrow> getitem (setitem d name c) name' = getitem d name'"
  by (simp add: getitem_def setitem_def update_conv')

lemma index_setitem: "index (setitem d name c) = index d"
  by (simp add: setitem_def)

lemma assign_columns_foldl:
  assumes "df < length s" and "getitem (s ! df) ''price'' = Inr price"
    and "''price'' \<notin> fst ` set cols"
  shows "assign_columns cols s df =
    (s[df := foldl (\<lambda>d (name, f). setitem d name (f price)) (s ! df) cols], None)"
  using assms
proof (induction cols arbitrary: s)
  case Nil
  then show ?case by simp
next
  case (Cons a cols)
  obtain name f where a: "a = (name, f)" by (cases a)
  with Cons.prems have ne: "name \<noteq> ''price''" by auto
  let ?s = "s[df := setitem (s ! df) name (f price)]"
  have "df < length ?s" using Cons.prems by simp
  moreover have "getitem (?s ! df) ''price'' = Inr price"
    using Cons.prems ne by (simp add: getitem_setitem_other)
  moreover have "''price'' \<notin> fst ` set cols" using Cons.prems by simp
  ultimately have "assign_columns cols ?s df =
      (?s[df := foldl (\<lambda>d (name, f). setitem d name (f price)) (?s ! df) cols], None)"
    by (rule Cons.IH)
  with Cons.prems show ?case by (simp add: a)
qed

lemma index_foldl_setitem:
  "index (foldl (\<lambda>d (name, f). setitem d name (f price)) d cols) = index d"
  by (induction cols arbitrary: d) (auto simp: index_setitem)

lemma map_of_foldl_setitem_other:
  "name \<notin> fst ` set cols \<Longrightarrow>
   map_of (columns (foldl (\<lambda>d (name, f). setitem d name (f price)) d cols)) name =
     map_of (columns d) name"
  by (induction cols arbitrary: d) (auto simp: setitem_def update_conv')

lemma map_of_foldl_setitem_derived:
  "distinct (map fst cols) \<Longrightarrow> (name, f) \<in> set cols \<Longrightarrow>
   map_of (columns (foldl (\<lambda>d (name, f). setitem d name (f price)) d cols)) name = Some (f price)"
proof (induction cols arbitrary: d)
  case Nil
  then show ?case by simp
next
  case (Cons a cols)
  obtain n g where a: "a = (n, g)" by (cases a)
  show ?case
  proof (cases "(name, f) \<in> set cols")
    case True
    with Cons show ?thesis by (simp add: a)
  next
    case False
    with Cons.prems a have eq: "n = name" "g = f" and fresh: "name \<notin> fst ` set cols"
      by auto
    have "map_of (columns (foldl (\<lambda>d (name, f). setitem d name (f price))
          (setitem d name (f price)) cols)) name =
        map_of (columns (setitem d name (f price))) name"
      using fresh by (rule map_of_foldl_setitem_other)
    also have "\<dots> = Some (f price)"
      by (simp add: setitem_def update_conv')
    finally show ?thesis
      by (simp add: a eq)
  qed
qed

lemma distinct_foldl_setitem:
  "distinct (map fst (columns d)) \<Longrightarrow>
   distinct (map fst (columns (foldl (\<lambda>d (name, f). setitem d name (f price)) d cols)))"
  by (induction cols arbitrary: d) (auto simp: setitem_def distinct_update)

lemma update_fresh: "k \<notin> fst ` set al \<Longrightarrow> AList.update k v al = al @ [(k, v)]"
  by (induction al) auto

lemma columns_foldl_setitem_fresh:
  "distinct (map fst cols) \<Longrightarrow> fst ` set cols \<inter> fst ` set (columns d) = {} \<Longrightarrow>
   columns (foldl (\<lambda>d (name, f). setitem d name (f price)) d cols) =
     columns d @ map (\<lambda>(name, f). (name, f price)) cols"
proof (induction cols arbitrary: d)
  case Nil
  then show ?case by simp
next
  case (Cons a cols)
  obtain n g where a: "a = (n, g)" by (cases a)
  from Cons.prems a have fresh: "n \<notin> fst ` set (columns d)" by auto
  have cols1: "columns (setitem d n (g price)) = columns d @ [(n, g price)]"
    using fresh by (simp add: setitem_def update_fresh)
  from Cons.prems a have "distinct (map fst cols)"
    and "fst ` set cols \<inter> fst ` set (columns (setitem d n (g price))) = {}"
    by (auto simp: cols1)
  from Cons.IH [OF this] show ?case
    by (simp add: a cols1)
qed

lemma price_not_derived: "''price'' \<notin> fst ` set derived_columns"
  by (simp add: derived_columns_def)

lemma distinct_derived: "distinct (map fst derived_columns)"
  by (simp add: derived_columns_def)

lemma length_shift: "length (shift k xs) = length xs"
  by (simp add: shift_def)

lemma length_ffill_from: "length (ffill_from prev xs) = length xs"
  by (induction xs arbitrary: prev) simp_all

lemma length_pct_change: "length (pct_change k xs) = length xs"
  by (simp add: pct_change_def ffill_def Let_def length_shift length_ffill_from)

lemma length_rolling: "length (rolling w agg xs) = length xs"
  by (simp add: rolling_def)

lemma length_derived:
  "(name, f) \<in> set derived_columns \<Longrightarrow> length (f xs) = length xs"
  by (auto simp: derived_columns_def length_shift length_pct_change length_rolling)

lemma shift_nth:
  "i < length xs \<Longrightarrow> shift k xs ! i = (if i < k then NaN else xs ! (i - k))"
  by (auto simp: shift_def nth_append min_def)

lemma ffill_from_Val: "ffill_from prev (map Val ps) = map Val ps"
  by (induction ps arbitrary: prev) simp_all

lemma observations_Val: "observations (map Val ps) = ps"
  by (induction ps) simp_all

lemma list_slice_map: "list_slice (map f xs) i j = map f (list_slice xs i j)"
  by (simp add: list_slice_def take_map drop_map)

lemma rolling_Val_nth:
  assumes "i < length ps"
  shows "rolling w agg (map Val ps) ! i =
    (if Suc i < w then NaN else agg (list_slice ps (Suc i - w) (Suc i)))"
proof -
  have "length (list_slice ps (Suc i - w) (Suc i)) = min (Suc i) w"
    using assms by (auto simp: list_slice_def)
  then show ?thesis
    using assms by (auto simp: rolling_def list_slice_map observations_Val Let_def)
qed

lemma mean_not_NaN: "mean obs \<noteq> NaN"
  by (simp add: mean_def)

lemma std_not_NaN: "2 \<le> length obs \<Longrightarrow> std obs \<noteq> NaN"
  by (simp add: std_def Let_def)

lemma pct_change_Val_nth:
  assumes "i < length ps" and "0 \<notin> set ps"
  shows "pct_change k (map Val ps) ! i =
    (if i < k then NaN else Val (ps ! i / ps ! (i - k) - 1))"
proof -
  have nz: "ps ! (i - k) \<noteq> 0"
    using assms by (metis less_imp_diff_less nth_mem)
  show ?thesis
    using assms(1) nz
    by (simp add: pct_change_def ffill_def ffill_from_Val Let_def length_shift shift_nth)
qed

lemma select_rows_set:
  "x \<in> set (select_rows keep xs) \<Longrightarrow> \<exists>i < length xs. i < length keep \<and> keep ! i \<and> x = xs ! i"
  by (auto simp: select_rows_def set_zip)

lemma select_rows_all_False:
  "\<forall>b \<in> set keep. \<not> b \<Longrightarrow> select_rows keep xs = []"
  by (auto simp: select_rows_def filter_empty_conv dest: set_zip_leftD)

lemma select_rows_all_True:
  "\<forall>b \<in> set keep. b \<Longrightarrow> length keep = length xs \<Longrightarrow> select_rows keep xs = xs"
proof -
  assume a: "\<forall>b \<in> set keep. b" and l: "length keep = length xs"
  have "filter fst (zip keep xs) = zip keep xs"
    using a by (auto simp: filter_id_conv dest: set_zip_leftD)
  with l show ?thesis by (simp add: select_rows_def)
qed

lemma select_rows_split:
  assumes "length keep = length xs"
  shows "select_rows keep xs =
    select_rows (take k keep) (take k xs) @ select_rows (drop k keep) (drop k xs)"
proof -
  have "zip keep xs = zip (take k keep @ drop k keep) (take k xs @ drop k xs)"
    by simp
  also have "\<dots> = zip (take k keep) (take k xs) @ zip (drop k keep) (drop k xs)"
    using assms by (subst zip_append) simp_all
  finally show ?thesis by (simp add: select_rows_def)
qed

lemma select_rows_from:
  "select_rows (map (\<lambda>i. k \<le> i) [0 ..< length xs]) xs = drop k xs"
proof -
  let ?keep = "map (\<lambda>i. k \<le> i) [0 ..< length xs]"
  have l: "length ?keep = length xs" by simp
  have 1: "select_rows (take k ?keep) (take k xs) = []"
    by (rule select_rows_all_False) (auto simp: take_map set_conv_nth)
  have 2: "select_rows (drop k ?keep) (drop k xs) = drop k xs"
    by (rule select_rows_all_True) (auto simp: drop_map set_conv_nth)
  show ?thesis
    by (subst select_rows_split [OF l, of k]) (simp only: 1 2 append_Nil)
qed

lemma subseq_select_rows: "length keep = length xs \<Longrightarrow> subseq (select_rows keep xs) xs"
proof -
  assume l: "length keep = length xs"
  have "subseq (map snd (filter fst (zip keep xs))) (map snd (zip keep xs))"
    by (intro subseq_map subseq_filter_left)
  with l show ?thesis by (simp add: select_rows_def)
qed

lemma subseq_select_rows_drop:
  assumes "length keep = length xs" and "\<forall>i < k. i < length keep \<longrightarrow> \<not> keep ! i"
  shows "subseq (select_rows keep xs) (drop k xs)"
proof -
  have "select_rows (take k keep) (take k xs) = []"
    using assms(2) by (intro select_rows_all_False) (auto simp: set_conv_nth)
  then have "select_rows keep xs = select_rows (drop k keep) (drop k xs)"
    by (simp add: select_rows_split [OF assms(1), of k])
  moreover have "subseq (select_rows (drop k keep) (drop k xs)) (drop k xs)"
    using assms(1) by (intro subseq_select_rows) simp
  ultimately show ?thesis by simp
qed

lemma length_notna_rows: "length (notna_rows d) = length (index d)"
  by (simp add: notna_rows_def)

lemma notna_rows_nth:
  "i < length (index d) \<Longrightarrow> notna_rows d ! i \<longleftrightarrow> (\<forall>(name, c) \<in> set (columns d). c ! i \<noteq> NaN)"
  by (simp add: notna_rows_def list_all_iff)

lemma index_dropna: "index (dropna d) = select_rows (notna_rows d) (index d)"
  by (simp add: dropna_def Let_def)

lemma columns_dropna:
  "columns (dropna d) = map (\<lambda>(name, c). (name, select_rows (notna_rows d) c)) (columns d)"
  by (simp add: dropna_def Let_def)

lemma wf_frame_column:
  "wf_frame d \<Longrightarrow> (name, c) \<in> set (columns d) \<Longrightarrow> length c = length (index d)"
  by (auto simp: wf_frame_def list_all_iff)

lemma dropna_populated:
  assumes "wf_frame d" and "(name, c) \<in> set (columns (dropna d))"
  shows "NaN \<notin> set c"
proof
  assume nan: "NaN \<in> set c"
  from assms(2) obtain c0 where c0: "(name, c0) \<in> set (columns d)"
    and c: "c = select_rows (notna_rows d) c0"
    by (auto simp: columns_dropna)
  from nan obtain i where i: "i < length c0" "notna_rows d ! i" "NaN = c0 ! i"
    unfolding c by (blast dest: select_rows_set)
  from wf_frame_column [OF assms(1) c0] i(1) have "i < length (index d)" by simp
  with i(2) c0 have "c0 ! i \<noteq> NaN"
    by (auto simp: notna_rows_nth)
  with i(3) show False by simp
qed

lemma featured_column_cases:
  assumes "distinct (map fst (columns d))"
    and "(name, c) \<in> set (columns (foldl (\<lambda>d (name, f). setitem d name (f price)) d derived_columns))"
  shows "(\<exists>f. (name, f) \<in> set derived_columns \<and> c = f price) \<or> (name, c) \<in> set (columns d)"
proof -
  let ?F = "foldl (\<lambda>d (name, f). setitem d name (f price)) d derived_columns"
  have m: "map_of (columns ?F) name = Some c"
    by (rule map_of_is_SomeI [OF distinct_foldl_setitem [OF assms(1)] assms(2)])
  show ?thesis
  proof (cases "name \<in> fst ` set derived_columns")
    case True
    then obtain f where f: "(name, f) \<in> set derived_columns" by auto
    from map_of_foldl_setitem_derived [OF distinct_derived f, of price d] m
    have "c = f price" by simp
    with f show ?thesis by blast
  next
    case False
    from map_of_foldl_setitem_other [OF False, of price d] m
    have "map_of (columns d) name = Some c" by simp
    then show ?thesis by (blast dest: map_of_SomeD)
  qed
qed

lemma featured_column_derived:
  assumes "distinct (map fst (columns d))" and "(name, f) \<in> set derived_columns"
  shows "(name, f price) \<in> set (columns (foldl (\<lambda>d (name, f). setitem d name (f price)) d derived_columns))"
  using map_of_foldl_setitem_derived [OF distinct_derived assms(2), of price d]
  by (blast dest: map_of_SomeD)

lemma wf_frame_featured:
  assumes "wf_frame d" and "length price = length (index d)"
  shows "wf_frame (foldl (\<lambda>d (name, f). setitem d name (f price)) d derived_columns)"
proof -
  let ?F = "foldl (\<lambda>d (name, f). setitem d name (f price)) d derived_columns"
  from assms(1) have dist: "distinct (map fst (columns d))"
    by (simp add: wf_frame_def)
  have "length c = length (index ?F)" if "(name, c) \<in> set (columns ?F)" for name c
    using featured_column_cases [OF dist that] assms
    by (auto simp: index_foldl_setitem length_derived dest: wf_frame_column)
  then show ?thesis
    using distinct_foldl_setitem [OF dist]
    by (auto simp: wf_frame_def list_all_iff)
qed

lemma getitem_column: "getitem d name = Inr c \<Longrightarrow> (name, c) \<in> set (columns d)"
  by (auto simp: getitem_def split: option.splits dest: map_of_SomeD)

lemma derived_functions:
  "(name, f) \<in> set derived_columns \<Longrightarrow>
   f = rolling 7 mean \<or> f = rolling 7 std \<or> f = pct_change 1 \<or> f = pct_change 7 \<or>
   f = shift 1 \<or> f = shift 7"
  unfolding derived_columns_def by simp blast

lemma derived_nth_clean:
  assumes "(name, f) \<in> set derived_columns" and "7 \<le> i" and "i < length ps" and "0 \<notin> set ps"
  shows "f (map Val ps) ! i \<noteq> NaN"
proof -
  have w: "length (list_slice ps (Suc i - 7) (Suc i)) = 7"
    using assms(2,3) by (auto simp: list_slice_def)
  have "rolling 7 mean (map Val ps) ! i \<noteq> NaN"
    using assms(2,3) by (simp add: rolling_Val_nth mean_not_NaN)
  moreover have "rolling 7 std (map Val ps) ! i \<noteq> NaN"
    using assms(2,3) w by (simp add: rolling_Val_nth std_not_NaN)
  moreover have "pct_change 1 (map Val ps) ! i \<noteq> NaN" and "pct_change 7 (map Val ps) ! i \<noteq> NaN"
    using assms(2,3,4) by (simp_all add: pct_change_Val_nth)
  moreover have "shift 1 (map Val ps) ! i \<noteq> NaN" and "shift 7 (map Val ps) ! i \<noteq> NaN"
    using assms(2,3) by (simp_all add: shift_nth)
  ultimately show ?thesis
    using derived_functions [OF assms(1)] by blast
qed

lemma lag_7_member: "(''price_lag_7'', shift 7) \<in> set derived_columns"
  by (simp add: derived_columns_def)

lemma notna_featured_early:
  assumes "wf_frame d" and "getitem d ''price'' = Inr price" and "i < 7" and "i < length (index d)"
  shows "\<not> notna_rows (foldl (\<lambda>d (name, f). setitem d name (f price)) d derived_columns) ! i"
proof -
  let ?F = "foldl (\<lambda>d (name, f). setitem d name (f price)) d derived_columns"
  from assms(1) have dist: "distinct (map fst (columns d))"
    by (simp add: wf_frame_def)
  have len: "length price = length (index d)"
    using wf_frame_column [OF assms(1) getitem_column [OF assms(2)]] .
  have col: "(''price_lag_7'', shift 7 price) \<in> set (columns ?F)"
    using dist lag_7_member by (rule featured_column_derived)
  have "shift 7 price ! i = NaN"
    using assms(3,4) len by (simp add: shift_nth)
  with col show ?thesis
    using assms(4) by (auto simp: notna_rows_nth index_foldl_setitem)
qed

lemma notna_featured_clean:
  assumes "wf_frame d" and "getitem d ''price'' = Inr (map Val ps)" and "0 \<notin> set ps"
    and "\<forall>(name, c) \<in> set (columns d). NaN \<notin> set c"
  shows "notna_rows (foldl (\<lambda>d (name, f). setitem d name (f (map Val ps))) d derived_columns) =
    map (\<lambda>i. 7 \<le> i) [0 ..< length (index d)]"
proof (rule nth_equalityI)
  let ?F = "foldl (\<lambda>d (name, f). setitem d name (f (map Val ps))) d derived_columns"
  show "length (notna_rows ?F) = length (map (\<lambda>i. 7 \<le> i) [0 ..< length (index d)])"
    by (simp add: length_notna_rows index_foldl_setitem)
  fix i assume "i < length (notna_rows ?F)"
  then have i: "i < length (index d)"
    by (simp add: length_notna_rows index_foldl_setitem)
  from assms(1) have dist: "distinct (map fst (columns d))"
    by (simp add: wf_frame_def)
  have len: "length ps = length (index d)"
    using wf_frame_column [OF assms(1) getitem_column [OF assms(2)]] by simp
  have "notna_rows ?F ! i \<longleftrightarrow> 7 \<le> i"
  proof (cases "i < 7")
    case True
    with notna_featured_early [OF assms(1,2) True i] show ?thesis by simp
  next
    case False
    have "c ! i \<noteq> NaN" if "(name, c) \<in> set (columns ?F)" for name c
      using featured_column_cases [OF dist that]
    proof
      assume "\<exists>f. (name, f) \<in> set derived_columns \<and> c = f (map Val ps)"
      then show ?thesis
        using False i len assms(3) by (auto simp: derived_nth_clean)
    next
      assume c: "(name, c) \<in> set (columns d)"
      with assms(4) have "NaN \<notin> set c" by auto
      moreover have "i < length c"
        using wf_frame_column [OF assms(1) c] i by simp
      ultimately show ?thesis by (metis nth_mem)
    qed
    with False i show ?thesis
      by (auto simp: notna_rows_nth index_foldl_setitem)
  qed
  with i show "notna_rows ?F ! i = map (\<lambda>i. 7 \<le> i) [0 ..< length (index d)] ! i"
    by simp
qed

lemma all_Val_map:
  assumes "\<forall>x \<in> set price. \<exists>v. x = Val v \<and> v \<noteq> 0"
  shows "\<exists>ps. price = map Val ps \<and> 0 \<notin> set ps"
  using assms
proof (induction price)
  case Nil
  then show ?case by simp
next
  case (Cons x price)
  then obtain ps where ps: "price = map Val ps" "0 \<notin> set ps" by auto
  from Cons.prems obtain v where v: "x = Val v" "v \<noteq> 0" by auto
  have "x # price = map Val (v # ps) \<and> 0 \<notin> set (v # ps)"
    using ps v by simp
  then show ?case by (rule exI)
qed

lemma create_time_series_features_eq:
  assumes "df < length s" and "getitem (s ! df) ''price'' = Inr price"
  shows "create_time_series_features s df =
    (s[df := foldl (\<lambda>d (name, f). setitem d name (f price)) (s ! df) derived_columns] @
       [dropna (foldl (\<lambda>d (name, f). setitem d name (f price)) (s ! df) derived_columns)],
     Inr (length s))"
proof -
  have "assign_columns derived_columns s df =
      (s[df := foldl (\<lambda>d (name, f). setitem d name (f price)) (s ! df) derived_columns], None)"
    using assms price_not_derived by (rule assign_columns_foldl)
  with assms(1) show ?thesis
    by (simp add: create_time_series_features_def)
qed

lemma featured_dropna_subseq:
  assumes "wf_frame d" and "getitem d ''price'' = Inr price"
  shows "subseq
    (index (dropna (foldl (\<lambda>d (name, f). setitem d name (f price)) d derived_columns)))
    (drop 7 (index d))"
  unfolding index_dropna index_foldl_setitem
proof (rule subseq_select_rows_drop)
  let ?F = "foldl (\<lambda>d (name, f). setitem d name (f price)) d derived_columns"
  show "length (notna_rows ?F) = length (index d)"
    by (simp add: length_notna_rows index_foldl_setitem)
  show "\<forall>i<7. i < length (notna_rows ?F) \<longrightarrow> \<not> notna_rows ?F ! i"
    using notna_featured_early [OF assms]
    by (simp add: length_notna_rows index_foldl_setitem)
qed

lemma keys_setitem:
  "map fst (columns (setitem d n c)) =
     map fst (columns d) @ (if n \<in> fst ` set (columns d) then [] else [n])"
  by (simp add: setitem_def update_keys)

lemma keys_foldl_setitem:
  "distinct (map fst cols) \<Longrightarrow>
   map fst (columns (foldl (\<lambda>d (name, f). setitem d name (f price)) d cols)) =
     map fst (columns d) @ filter (\<lambda>n. n \<notin> fst ` set (columns d)) (map fst cols)"
proof (induction cols arbitrary: d)
  case Nil
  then show ?case by simp
next
  case (Cons a cols)
  obtain n g where a: "a = (n, g)" by (cases a)
  let ?d1 = "setitem d n (g price)"
  have keys: "fst ` set (columns ?d1) = insert n (fst ` set (columns d))"
    using keys_setitem [of d n "g price", THEN arg_cong, of set] by auto
  from Cons.prems a have fresh: "n \<notin> set (map fst cols)" and dist: "distinct (map fst cols)"
    by simp_all
  have same: "filter (\<lambda>m. m \<notin> fst ` set (columns ?d1)) (map fst cols) =
      filter (\<lambda>m. m \<notin> fst ` set (columns d)) (map fst cols)"
    unfolding keys using fresh by (intro filter_cong) auto
  from Cons.IH [OF dist, of ?d1] show ?case
    unfolding same by (simp add: a keys_setitem)
qed

lemma getitem_featured:
  assumes "(name, f) \<in> set derived_columns"
  shows "getitem (foldl (\<lambda>d (name, f). setitem d name (f price)) d derived_columns) name =
    Inr (f price)"
  using map_of_foldl_setitem_derived [OF distinct_derived assms, of price d]
  by (simp add: getitem_def)

lemma derived_names:
  "fst ` set derived_columns =
     {''rolling_mean_7d'', ''rolling_std_7d'', ''price_change_1d'', ''price_change_7d'',
      ''price_lag_1'', ''price_lag_7''}"
  by (simp add: derived_columns_def)

lemmas frame_eval = example_frame_def range_index_def create_time_series_features_def
  derived_columns_def getitem_def setitem_def rolling_def shift_def pct_change_def ffill_def
  dropna_def notna_rows_def select_rows_def list_slice_def upt_conv_Cons mean_def std_def
  wf_frame_def

text \<open>
  C4 (amended). Feature engineering on a well-formed frame with a price column returns a
  frame in which every column, the six derived ones among them, is populated in every
  row, and whose rows are among the input rows from the eighth on: the first seven rows
  lack the history of the 7-period columns and are dropped. When the input has no
  missing value and its prices are finite and not zero, exactly the first seven rows are
  dropped, so a 10-row input leaves the 3 rows with index 7, 8 and 9. A row whose
  percentage change is 0/0 is dropped as well, whatever its history.
\<close>

theorem create_time_series_features_rows:
  assumes "df < length s" and "wf_frame (s ! df)" and "getitem (s ! df) ''price'' = Inr price"
  shows "\<exists>s'. create_time_series_features s df = (s', Inr (length s)) \<and>
     (\<forall>(name, c) \<in> set (columns (s' ! length s)). NaN \<notin> set c) \<and>
     (\<forall>(name, f) \<in> set derived_columns. name \<in> fst ` set (columns (s' ! length s))) \<and>
     subseq (index (s' ! length s)) (drop 7 (index (s ! df))) \<and>
     ((\<forall>(name, c) \<in> set (columns (s ! df)). NaN \<notin> set c) \<and>
      (\<forall>x \<in> set price. \<exists>v. x = Val v \<and> v \<noteq> 0) \<longrightarrow>
        index (s' ! length s) = drop 7 (index (s ! df)) \<and>
        columns (s' ! length s) = map (\<lambda>(name, c). (name, drop 7 c)) (columns (s' ! df)) \<and>
        (length (index (s ! df)) = 10 \<longrightarrow> length (index (s' ! length s)) = 3))"
proof -
  let ?d = "s ! df"
  let ?F = "foldl (\<lambda>d (name, f). setitem d name (f price)) ?d derived_columns"
  let ?s' = "s[df := ?F] @ [dropna ?F]"
  have r: "create_time_series_features s df = (?s', Inr (length s))"
    using assms(1,3) by (rule create_time_series_features_eq)
  have out: "?s' ! length s = dropna ?F"
    by (simp add: nth_append)
  have at_df: "?s' ! df = ?F"
    using assms(1) by (simp add: nth_append)
  from assms(2) have dist: "distinct (map fst (columns ?d))"
    by (simp add: wf_frame_def)
  have len: "length price = length (index ?d)"
    using wf_frame_column [OF assms(2) getitem_column [OF assms(3)]] .
  have wfF: "wf_frame ?F"
    using assms(2) len by (rule wf_frame_featured)
  have 1: "\<forall>(name, c) \<in> set (columns (?s' ! length s)). NaN \<notin> set c"
    unfolding out using dropna_populated [OF wfF] by blast
  have 2: "\<forall>(name, f) \<in> set derived_columns. name \<in> fst ` set (columns (?s' ! length s))"
  proof clarify
    fix name f assume "(name, f) \<in> set derived_columns"
    with dist have "(name, f price) \<in> set (columns ?F)"
      by (rule featured_column_derived)
    then have "(name, select_rows (notna_rows ?F) (f price)) \<in> set (columns (dropna ?F))"
      by (force simp: columns_dropna)
    then show "name \<in> fst ` set (columns (?s' ! length s))"
      unfolding out by force
  qed
  have 3: "subseq (index (?s' ! length s)) (drop 7 (index ?d))"
    unfolding out index_dropna index_foldl_setitem
  proof (rule subseq_select_rows_drop)
    show "length (notna_rows ?F) = length (index ?d)"
      by (simp add: length_notna_rows index_foldl_setitem)
    show "\<forall>i<7. i < length (notna_rows ?F) \<longrightarrow> \<not> notna_rows ?F ! i"
      using notna_featured_early [OF assms(2,3)]
      by (simp add: length_notna_rows index_foldl_setitem)
  qed
  have 4: "index (?s' ! length s) = drop 7 (index ?d) \<and>
        columns (?s' ! length s) = map (\<lambda>(name, c). (name, drop 7 c)) (columns (?s' ! df)) \<and>
        (length (index ?d) = 10 \<longrightarrow> length (index (?s' ! length s)) = 3)"
    if clean: "\<forall>(name, c) \<in> set (columns ?d). NaN \<notin> set c"
      and fin: "\<forall>x \<in> set price. \<exists>v. x = Val v \<and> v \<noteq> 0"
  proof -
    from all_Val_map [OF fin] obtain ps where ps: "price = map Val ps" "0 \<notin> set ps"
      by blast
    have keep: "notna_rows ?F = map (\<lambda>i. 7 \<le> i) [0 ..< length (index ?d)]"
      using notna_featured_clean [OF assms(2) assms(3) [unfolded ps(1)] ps(2) clean]
      by (simp add: ps(1))
    have idx: "index (dropna ?F) = drop 7 (index ?d)"
      by (simp add: index_dropna keep index_foldl_setitem select_rows_from)
    have "select_rows (notna_rows ?F) c = drop 7 c" if "(name, c) \<in> set (columns ?F)" for name c
    proof -
      from wf_frame_column [OF wfF that] have "length c = length (index ?d)"
        by (simp add: index_foldl_setitem)
      then show ?thesis
        using select_rows_from [of 7 c] by (simp add: keep)
    qed
    then have cols: "columns (dropna ?F) = map (\<lambda>(name, c). (name, drop 7 c)) (columns ?F)"
      by (auto simp: columns_dropna)
    from idx cols show ?thesis
      unfolding out at_df by simp
  qed
  from r 1 2 3 4 show ?thesis
    by blast
qed

theorem create_time_series_features_rows_witness:
  "(0::nat) < length [example_frame [1, 2, 3, 4, 5, 6, 7, 8, 9, 10]] \<and>
   wf_frame (example_frame [1, 2, 3, 4, 5, 6, 7, 8, 9, 10]) \<and>
   getitem (example_frame [1, 2, 3, 4, 5, 6, 7, 8, 9, 10]) ''price'' =
     Inr (map Val [1, 2, 3, 4, 5, 6, 7, 8, 9, 10]) \<and>
   length (index (example_frame [1, 2, 3, 4, 5, 6, 7, 8, 9, 10])) = 10 \<and>
   index (fst (create_time_series_features [example_frame [1, 2, 3, 4, 5, 6, 7, 8, 9, 10]] 0) ! 1) =
     [Val 7, Val 8, Val 9] \<and>
   length (index (fst (create_time_series_features [example_frame [1, 2, 3, 4, 5, 6, 7, 8, 9, 10]] 0) ! 1)) = 3"
proof -
  let ?ps = "[1, 2, 3, 4, 5, 6, 7, 8, 9, 10 :: real]"
  let ?s = "[example_frame ?ps]"
  have h1: "0 < length ?s" by simp
  have wf: "wf_frame (example_frame ?ps)"
    by (simp add: frame_eval)
  then have h2: "wf_frame (?s ! 0)" by simp
  have g: "getitem (example_frame ?ps) ''price'' = Inr (map Val ?ps)"
    by (simp add: frame_eval)
  then have h3: "getitem (?s ! 0) ''price'' = Inr (map Val ?ps)" by simp
  have rows: "length (index (example_frame ?ps)) = 10"
    by (simp add: frame_eval)
  have clean: "\<forall>(name, c) \<in> set (columns (?s ! 0)). NaN \<notin> set c"
    by (simp add: frame_eval)
  have nonzero: "\<forall>x \<in> set (map Val ?ps). \<exists>v. x = Val v \<and> v \<noteq> 0"
    by simp
  from create_time_series_features_rows [OF h1 h2 h3] clean nonzero rows
  obtain s' where s': "create_time_series_features ?s 0 = (s', Inr (length ?s))"
    and idx: "index (s' ! length ?s) = drop 7 (index (?s ! 0))"
    and three: "length (index (s' ! length ?s)) = 3"
    by auto
  from s' have fst: "fst (create_time_series_features ?s 0) = s'" by simp
  have "index (fst (create_time_series_features ?s 0) ! 1) = [Val 7, Val 8, Val 9]"
    unfolding fst using idx by (simp add: frame_eval)
  moreover have "length (index (fst (create_time_series_features ?s 0) ! 1)) = 3"
    unfolding fst using three by simp
  ultimately show ?thesis
    using wf g rows by simp
qed

theorem create_time_series_features_rows_counterexample:
  "wf_frame (example_frame [5, 5, 5, 5, 5, 5, 5, 5, 0, 0]) \<and>
   length (index (example_frame [5, 5, 5, 5, 5, 5, 5, 5, 0, 0])) = 10 \<and>
   list_all (\<lambda>(name, c). NaN \<notin> set c) (columns (example_frame [5, 5, 5, 5, 5, 5, 5, 5, 0, 0])) \<and>
   index (fst (create_time_series_features [example_frame [5, 5, 5, 5, 5, 5, 5, 5, 0, 0]] 0) ! 1) =
     [Val 7, Val 8] \<and>
   length (index (fst (create_time_series_features [example_frame [5, 5, 5, 5, 5, 5, 5, 5, 0, 0]] 0) ! 1)) \<noteq> 3"
  by (simp add: frame_eval)

text \<open>
  C9 (amended). Feature engineering mutates the frame it is given. After the call the
  caller's object holds the six columns \<open>rolling_mean_7d\<close>, \<open>rolling_std_7d\<close>,
  \<open>price_change_1d\<close>, \<open>price_change_7d\<close>, \<open>price_lag_1\<close> and \<open>price_lag_7\<close>, each computed
  from its price column. A column that already had one of these names is overwritten
  where it stands; the names that are new are appended after the existing columns, in
  this order, so all six are appended when none of them existed. Every column with
  another name and the rows of the caller's object are as before, and no other object
  has changed. Only the value returned, a new object, has rows dropped: it keeps the
  rows of the caller's object in which no column is missing, which on a well-formed frame
  excludes the first seven rows, so that the returned frame is shorter than the caller's
  whenever there is a row.
\<close>

theorem create_time_series_features_in_place:
  assumes "df < length s" and "getitem (s ! df) ''price'' = Inr price"
  shows "\<exists>s' keep. create_time_series_features s df = (s', Inr (length s)) \<and>
     length s' = Suc (length s) \<and>
     (\<forall>r < length s. r \<noteq> df \<longrightarrow> s' ! r = s ! r) \<and>
     index (s' ! df) = index (s ! df) \<and>
     getitem (s' ! df) ''rolling_mean_7d'' = Inr (rolling 7 mean price) \<and>
     getitem (s' ! df) ''rolling_std_7d'' = Inr (rolling 7 std price) \<and>
     getitem (s' ! df) ''price_change_1d'' = Inr (pct_change 1 price) \<and>
     getitem (s' ! df) ''price_change_7d'' = Inr (pct_change 7 price) \<and>
     getitem (s' ! df) ''price_lag_1'' = Inr (shift 1 price) \<and>
     getitem (s' ! df) ''price_lag_7'' = Inr (shift 7 price) \<and>
     (\<forall>name. name \<notin> {''rolling_mean_7d'', ''rolling_std_7d'', ''price_change_1d'',
                      ''price_change_7d'', ''price_lag_1'', ''price_lag_7''} \<longrightarrow>
        getitem (s' ! df) name = getitem (s ! df) name) \<and>
     map fst (columns (s' ! df)) =
       map fst (columns (s ! df)) @
       filter (\<lambda>name. name \<notin> fst ` set (columns (s ! df)))
         [''rolling_mean_7d'', ''rolling_std_7d'', ''price_change_1d'', ''price_change_7d'',
          ''price_lag_1'', ''price_lag_7''] \<and>
     ({''rolling_mean_7d'', ''rolling_std_7d'', ''price_change_1d'', ''price_change_7d'',
       ''price_lag_1'', ''price_lag_7''} \<inter> fst ` set (columns (s ! df)) = {} \<longrightarrow>
        columns (s' ! df) =
          columns (s ! df) @
          [(''rolling_mean_7d'', rolling 7 mean price), (''rolling_std_7d'', rolling 7 std price),
           (''price_change_1d'', pct_change 1 price), (''price_change_7d'', pct_change 7 price),
           (''price_lag_1'', shift 1 price), (''price_lag_7'', shift 7 price)]) \<and>
     keep = map (\<lambda>i. \<forall>(name, c) \<in> set (columns (s' ! df)). c ! i \<noteq> NaN)
              [0 ..< length (index (s ! df))] \<and>
     index (s' ! length s) = select_rows keep (index (s ! df)) \<and>
     columns (s' ! length s) = map (\<lambda>(name, c). (name, select_rows keep c)) (columns (s' ! df)) \<and>
     (wf_frame (s ! df) \<longrightarrow>
        (\<forall>i < length (index (s ! df)). i < 7 \<longrightarrow> \<not> keep ! i) \<and>
        (\<forall>(name, c) \<in> set (columns (s' ! length s)). NaN \<notin> set c) \<and>
        length (index (s' ! length s)) \<le> length (index (s ! df)) - 7 \<and>
        (index (s ! df) \<noteq> [] \<longrightarrow>
           length (index (s' ! length s)) < length (index (s' ! df))))"
proof -
  let ?d = "s ! df"
  let ?F = "foldl (\<lambda>d (name, f). setitem d name (f price)) ?d derived_columns"
  let ?s' = "s[df := ?F] @ [dropna ?F]"
  let ?keep = "notna_rows ?F"
  have r: "create_time_series_features s df = (?s', Inr (length s))"
    using assms by (rule create_time_series_features_eq)
  have at_df: "?s' ! df = ?F"
    using assms(1) by (simp add: nth_append)
  have out: "?s' ! length s = dropna ?F"
    by (simp add: nth_append)
  have 1: "length ?s' = Suc (length s)"
    by simp
  have 2: "\<forall>r < length s. r \<noteq> df \<longrightarrow> ?s' ! r = s ! r"
    by (simp add: nth_append)
  have 3: "index (?s' ! df) = index ?d"
    unfolding at_df by (rule index_foldl_setitem)
  have g1: "getitem (?s' ! df) ''rolling_mean_7d'' = Inr (rolling 7 mean price)"
    unfolding at_df by (rule getitem_featured) (simp add: derived_columns_def)
  have g2: "getitem (?s' ! df) ''rolling_std_7d'' = Inr (rolling 7 std price)"
    unfolding at_df by (rule getitem_featured) (simp add: derived_columns_def)
  have g3: "getitem (?s' ! df) ''price_change_1d'' = Inr (pct_change 1 price)"
    unfolding at_df by (rule getitem_featured) (simp add: derived_columns_def)
  have g4: "getitem (?s' ! df) ''price_change_7d'' = Inr (pct_change 7 price)"
    unfolding at_df by (rule getitem_featured) (simp add: derived_columns_def)
  have g5: "getitem (?s' ! df) ''price_lag_1'' = Inr (shift 1 price)"
    unfolding at_df by (rule getitem_featured) (simp add: derived_columns_def)
  have g6: "getitem (?s' ! df) ''price_lag_7'' = Inr (shift 7 price)"
    unfolding at_df by (rule getitem_featured) (simp add: derived_columns_def)
  have 4: "\<forall>name. name \<notin> {''rolling_mean_7d'', ''rolling_std_7d'', ''price_change_1d'',
                      ''price_change_7d'', ''price_lag_1'', ''price_lag_7''} \<longrightarrow>
        getitem (?s' ! df) name = getitem ?d name"
    unfolding at_df derived_names [symmetric]
    by (simp add: getitem_def map_of_foldl_setitem_other)
  have 5: "map fst (columns (?s' ! df)) =
       map fst (columns ?d) @
       filter (\<lambda>name. name \<notin> fst ` set (columns ?d))
         [''rolling_mean_7d'', ''rolling_std_7d'', ''price_change_1d'', ''price_change_7d'',
          ''price_lag_1'', ''price_lag_7'']"
    unfolding at_df keys_foldl_setitem [OF distinct_derived]
    by (simp add: derived_columns_def)
  have 6: "{''rolling_mean_7d'', ''rolling_std_7d'', ''price_change_1d'', ''price_change_7d'',
       ''price_lag_1'', ''price_lag_7''} \<inter> fst ` set (columns ?d) = {} \<longrightarrow>
        columns (?s' ! df) =
          columns ?d @
          [(''rolling_mean_7d'', rolling 7 mean price), (''rolling_std_7d'', rolling 7 std price),
           (''price_change_1d'', pct_change 1 price), (''price_change_7d'', pct_change 7 price),
           (''price_lag_1'', shift 1 price), (''price_lag_7'', shift 7 price)]"
  proof
    assume "{''rolling_mean_7d'', ''rolling_std_7d'', ''price_change_1d'', ''price_change_7d'',
       ''price_lag_1'', ''price_lag_7''} \<inter> fst ` set (columns ?d) = {}"
    then have "fst ` set derived_columns \<inter> fst ` set (columns ?d) = {}"
      unfolding derived_names .
    from columns_foldl_setitem_fresh [OF distinct_derived this, of price]
    show "columns (?s' ! df) =
          columns ?d @
          [(''rolling_mean_7d'', rolling 7 mean price), (''rolling_std_7d'', rolling 7 std price),
           (''price_change_1d'', pct_change 1 price), (''price_change_7d'', pct_change 7 price),
           (''price_lag_1'', shift 1 price), (''price_lag_7'', shift 7 price)]"
      unfolding at_df by (simp add: derived_columns_def)
  qed
  have 7: "?keep = map (\<lambda>i. \<forall>(name, c) \<in> set (columns (?s' ! df)). c ! i \<noteq> NaN)
              [0 ..< length (index ?d)]"
    unfolding at_df by (simp add: notna_rows_def list_all_iff index_foldl_setitem)
  have 8: "index (?s' ! length s) = select_rows ?keep (index ?d)"
    unfolding out by (simp add: index_dropna index_foldl_setitem)
  have 9: "columns (?s' ! length s) =
      map (\<lambda>(name, c). (name, select_rows ?keep c)) (columns (?s' ! df))"
    unfolding out at_df by (rule columns_dropna)
  have 10: "(\<forall>i < length (index ?d). i < 7 \<longrightarrow> \<not> ?keep ! i) \<and>
        (\<forall>(name, c) \<in> set (columns (?s' ! length s)). NaN \<notin> set c) \<and>
        length (index (?s' ! length s)) \<le> length (index ?d) - 7 \<and>
        (index ?d \<noteq> [] \<longrightarrow> length (index (?s' ! length s)) < length (index (?s' ! df)))"
    if wf: "wf_frame ?d"
  proof -
    have len: "length price = length (index ?d)"
      using wf_frame_column [OF wf getitem_column [OF assms(2)]] .
    have wfF: "wf_frame ?F"
      using wf len by (rule wf_frame_featured)
    have a: "\<forall>i < length (index ?d). i < 7 \<longrightarrow> \<not> ?keep ! i"
      using notna_featured_early [OF wf assms(2)] by blast
    have b: "\<forall>(name, c) \<in> set (columns (?s' ! length s)). NaN \<notin> set c"
      unfolding out using dropna_populated [OF wfF] by blast
    have "length (index (dropna ?F)) \<le> length (drop 7 (index ?d))"
      using featured_dropna_subseq [OF wf assms(2)] by (rule list_emb_length)
    then have c: "length (index (?s' ! length s)) \<le> length (index ?d) - 7"
      unfolding out by simp
    have d: "index ?d \<noteq> [] \<longrightarrow> length (index (?s' ! length s)) < length (index (?s' ! df))"
      using c unfolding 3 by (cases "index ?d") simp_all
    from a b c d show ?thesis
      by (intro conjI)
  qed
  from r 1 2 3 g1 g2 g3 g4 g5 g6 4 5 6 7 8 9 10 show ?thesis
    by (intro exI [of _ ?s'] exI [of _ ?keep] conjI impI) blast+
qed

theorem create_time_series_features_in_place_witness:
  "(0::nat) < length [example_frame [1, 2, 3, 4, 5, 6, 7, 8]] \<and>
   getitem ([example_frame [1, 2, 3, 4, 5, 6, 7, 8]] ! 0) ''price'' = Inr (map Val [1, 2, 3, 4, 5, 6, 7, 8]) \<and>
   wf_frame (example_frame [1, 2, 3, 4, 5, 6, 7, 8]) \<and>
   snd (create_time_series_features [example_frame [1, 2, 3, 4, 5, 6, 7, 8]] 0) = Inr 1 \<and>
   length (fst (create_time_series_features [example_frame [1, 2, 3, 4, 5, 6, 7, 8]] 0)) = 2 \<and>
   index (fst (create_time_series_features [example_frame [1, 2, 3, 4, 5, 6, 7, 8]] 0) ! 0) =
     index (example_frame [1, 2, 3, 4, 5, 6, 7, 8]) \<and>
   map fst (columns (fst (create_time_series_features [example_frame [1, 2, 3, 4, 5, 6, 7, 8]] 0) ! 0)) =
     [''timestamp'', ''price'', ''rolling_mean_7d'', ''rolling_std_7d'', ''price_change_1d'',
      ''price_change_7d'', ''price_lag_1'', ''price_lag_7''] \<and>
   take 2 (columns (fst (create_time_series_features [example_frame [1, 2, 3, 4, 5, 6, 7, 8]] 0) ! 0)) =
     columns (example_frame [1, 2, 3, 4, 5, 6, 7, 8]) \<and>
   getitem (fst (create_time_series_features [example_frame [1, 2, 3, 4, 5, 6, 7, 8]] 0) ! 0) ''price_lag_7'' =
     Inr [NaN, NaN, NaN, NaN, NaN, NaN, NaN, Val 1] \<and>
   index (fst (create_time_series_features [example_frame [1, 2, 3, 4, 5, 6, 7, 8]] 0) ! 1) = [Val 7] \<and>
   length (index (fst (create_time_series_features [example_frame [1, 2, 3, 4, 5, 6, 7, 8]] 0) ! 1)) \<le> 8 - 7"
proof -
  let ?ps = "[1, 2, 3, 4, 5, 6, 7, 8 :: real]"
  let ?s = "[example_frame ?ps]"
  have h1: "0 < length ?s" by simp
  have h2: "getitem (?s ! 0) ''price'' = Inr (map Val ?ps)"
    by (simp add: frame_eval)
  have wf: "wf_frame (example_frame ?ps)"
    by (simp add: frame_eval)
  then have wf0: "wf_frame (?s ! 0)" by simp
  have rows: "length (index (?s ! 0)) = 8"
    by (simp add: frame_eval)
  have fresh: "{''rolling_mean_7d'', ''rolling_std_7d'', ''price_change_1d'', ''price_change_7d'',
       ''price_lag_1'', ''price_lag_7''} \<inter> fst ` set (columns (?s ! 0)) = {}"
    by (simp add: example_frame_def)
  from create_time_series_features_in_place [OF h1 h2]
  obtain s' keep where s': "create_time_series_features ?s 0 = (s', Inr (length ?s))"
    and len: "length s' = Suc (length ?s)"
    and idx: "index (s' ! 0) = index (?s ! 0)"
    and lag: "getitem (s' ! 0) ''price_lag_7'' = Inr (shift 7 (map Val ?ps))"
    and fr: "{''rolling_mean_7d'', ''rolling_std_7d'', ''price_change_1d'', ''price_change_7d'',
       ''price_lag_1'', ''price_lag_7''} \<inter> fst ` set (columns (?s ! 0)) = {} \<longrightarrow>
        columns (s' ! 0) =
          columns (?s ! 0) @
          [(''rolling_mean_7d'', rolling 7 mean (map Val ?ps)),
           (''rolling_std_7d'', rolling 7 std (map Val ?ps)),
           (''price_change_1d'', pct_change 1 (map Val ?ps)),
           (''price_change_7d'', pct_change 7 (map Val ?ps)),
           (''price_lag_1'', shift 1 (map Val ?ps)), (''price_lag_7'', shift 7 (map Val ?ps))]"
    and w: "wf_frame (?s ! 0) \<longrightarrow>
        (\<forall>i < length (index (?s ! 0)). i < 7 \<longrightarrow> \<not> keep ! i) \<and>
        (\<forall>(name, c) \<in> set (columns (s' ! length ?s)). NaN \<notin> set c) \<and>
        length (index (s' ! length ?s)) \<le> length (index (?s ! 0)) - 7 \<and>
        (index (?s ! 0) \<noteq> [] \<longrightarrow> length (index (s' ! length ?s)) < length (index (s' ! 0)))"
    by (elim exE conjE)
  from fr fresh have cols: "columns (s' ! 0) =
          columns (?s ! 0) @
          [(''rolling_mean_7d'', rolling 7 mean (map Val ?ps)),
           (''rolling_std_7d'', rolling 7 std (map Val ?ps)),
           (''price_change_1d'', pct_change 1 (map Val ?ps)),
           (''price_change_7d'', pct_change 7 (map Val ?ps)),
           (''price_lag_1'', shift 1 (map Val ?ps)), (''price_lag_7'', shift 7 (map Val ?ps))]"
    by (rule mp)
  from w wf0 rows have short: "length (index (s' ! length ?s)) \<le> 8 - 7"
    by simp
  from s' have fst: "fst (create_time_series_features ?s 0) = s'"
    and snd: "snd (create_time_series_features ?s 0) = Inr 1"
    by simp_all
  have names: "map fst (columns (s' ! 0)) =
     [''timestamp'', ''price'', ''rolling_mean_7d'', ''rolling_std_7d'', ''price_change_1d'',
      ''price_change_7d'', ''price_lag_1'', ''price_lag_7'']"
    unfolding cols by (simp add: example_frame_def)
  have pre: "take 2 (columns (s' ! 0)) = columns (example_frame ?ps)"
    unfolding cols by (simp add: example_frame_def)
  have idx0: "index (s' ! 0) = index (example_frame ?ps)"
    using idx by simp
  have lag7: "getitem (s' ! 0) ''price_lag_7'' = Inr [NaN, NaN, NaN, NaN, NaN, NaN, NaN, Val 1]"
    unfolding lag by (simp add: shift_def)
  have "index (fst (create_time_series_features ?s 0) ! 1) = [Val 7]"
    by (simp add: frame_eval)
  then have dropped: "index (s' ! 1) = [Val 7]"
    unfolding fst .
  from short have short1: "length (index (s' ! 1)) \<le> 8 - 7"
    by simp
  from h1 h2 wf snd len names pre idx0 lag7 dropped short1 show ?thesis
    unfolding fst by simp
qed

theorem create_time_series_features_in_place_counterexample:
  "getitem example_lagged_frame ''price'' = Inr [Val 10, Val 20, Val 30] \<and>
   getitem example_lagged_frame ''price_lag_1'' = Inr [Val 0, Val 10, Val 20] \<and>
   getitem (fst (create_time_series_features [example_lagged_frame] 0) ! 0) ''price_lag_1'' =
     Inr [NaN, Val 10, Val 20] \<and>
   map fst (columns example_lagged_frame) = [''timestamp'', ''price'', ''price_lag_1''] \<and>
   map fst (columns (fst (create_time_series_features [example_lagged_frame] 0) ! 0)) =
     [''timestamp'', ''price'', ''price_lag_1'', ''rolling_mean_7d'', ''rolling_std_7d'',
      ''price_change_1d'', ''price_change_7d'', ''price_lag_7''] \<and>
   length (columns (fst (create_time_series_features [example_lagged_frame] 0) ! 0)) =
     length (columns example_lagged_frame) + 5"
  by (simp add: example_lagged_frame_def range_index_def create_time_series_features_def
      derived_columns_def getitem_def setitem_def shift_def)

subsection \<open>Training and evaluation\<close>

lemma fit_transform_Inr:
  assumes "fit_transform col = Inr (sc, scaled)"
  shows "\<exists>xs. col = map Val xs \<and> scaler_fit xs = Inr sc \<and> scaled = transform sc xs"
proof -
  from assms obtain xs where xs: "finite_column col = Inr xs"
    and f: "scaler_fit xs = Inr sc" and t: "scaled = transform sc xs"
    by (auto simp: fit_transform_def split: sum.splits)
  from finite_column_Inr [OF xs] f t show ?thesis by blast
qed

lemma targets_drop: "map (\<lambda>i. data ! (i + L)) [0 ..< length data - L] = drop L data"
  by (rule nth_equalityI) (simp_all add: add.commute)

lemma transform_drop: "drop n (transform sc xs) = transform sc (drop n xs)"
  by (simp add: transform_def drop_map)

lemma example_load:
  "load_crypto_data example_files [] ''bitcoin'' = ([example_frame example_prices], Inr 0)"
  by (simp add: load_crypto_data_def read_csv_def example_files_def getitem_def setitem_def
      to_datetime_def example_frame_def)

lemma example_features:
  "create_time_series_features [example_frame example_prices] 0 =
     ([foldl (\<lambda>d (name, f). setitem d name (f (map Val example_prices)))
         (example_frame example_prices) derived_columns,
       dropna (foldl (\<lambda>d (name, f). setitem d name (f (map Val example_prices)))
         (example_frame example_prices) derived_columns)], Inr 1)"
proof -
  have "getitem ([example_frame example_prices] ! 0) ''price'' = Inr (map Val example_prices)"
    by (simp add: example_frame_def getitem_def)
  from create_time_series_features_eq [OF _ this] show ?thesis
    by simp
qed

lemma example_price_column:
  "getitem (dropna (foldl (\<lambda>d (name, f). setitem d name (f (map Val example_prices)))
         (example_frame example_prices) derived_columns)) ''price'' =
   Inr (map Val (drop 7 example_prices))"
  by (simp add: example_prices_def example_frame_def range_index_def
      derived_columns_def getitem_def setitem_def rolling_def shift_def pct_change_def ffill_def
      dropna_def notna_rows_def select_rows_def list_slice_def upt_conv_Cons mean_def std_def)

lemma example_load_features:
  "load_features example_files ''bitcoin'' =
     Inr (dropna (foldl (\<lambda>d (name, f). setitem d name (f (map Val example_prices)))
         (example_frame example_prices) derived_columns))"
  by (simp add: load_features_def example_load example_features)

lemma example_scaler:
  "scaler_fit (drop 7 example_prices) = Inr \<lparr>data_min = 108, data_max = 143, scale = 1 / 35, min_shift = - (108 / 35)\<rparr>"
proof -
  have "(35::real) < overflow_threshold"
    by (rule small_below_overflow_threshold) simp
  then have small: "\<not> overflow_threshold \<le> 35"
    by simp
  have "\<not> (35::real) < 10 * machine_epsilon"
    by (simp add: machine_epsilon_def)
  with small show ?thesis
    by (simp add: example_prices_def scaler_fit_def handle_zeros_in_scale_def Let_def)
qed

lemma example_scaled:
  "fit_transform (map Val (drop 7 example_prices)) =
     Inr (\<lparr>data_min = 108, data_max = 143, scale = 1 / 35, min_shift = - (108 / 35)\<rparr>,
       transform \<lparr>data_min = 108, data_max = 143, scale = 1 / 35, min_shift = - (108 / 35)\<rparr>
         (drop 7 example_prices))"
  by (simp add: fit_transform_def finite_column_Val example_scaler)

lemma split_indices_6:
  assumes "n = 6"
  shows "split_indices n (1 / 5) = Inr ([0, 1, 2, 3], [4, 5])"
  unfolding assms
proof -
  have "validate_shuffle_split 6 (1 / 5) = Inr (4, 2)"
    by (simp add: validate_shuffle_split_def)
  then show "split_indices 6 (1 / 5) = Inr ([0, 1, 2, 3], [4, 5])"
    by (simp add: split_indices_def upt_conv_Cons)
qed

lemma upt6: "[0 ..< 6] = [0, 1, 2, 3, 4, 5]"
  by (simp add: upt_conv_Cons)

lemma example_result:
  "train_and_evaluate_model example_env ''bitcoin'' =
     Inr ((), [(''MSE'', Val (5 / 2)), (''MAE'', Val (3 / 2)), (''R2'', Val (- 9))])"
proof -
  let ?sc = "\<lparr>data_min = 108, data_max = 143, scale = 1 / 35, min_shift = - (108 / 35)\<rparr>"
  let ?T = "transform ?sc (drop 7 example_prices)"
  let ?y_test = "[?T ! 34, ?T ! 35]"
  let ?y_pred = "[last (take 30 (drop 4 ?T)), last (take 30 (drop 5 ?T))]"
  have windows: "create_sequences ?T 30 =
      Inr (map (\<lambda>i. take 30 (drop i ?T)) [0, 1, 2, 3, 4, 5],
           map (\<lambda>i. ?T ! (i + 30)) [0, 1, 2, 3, 4, 5])"
    by (simp add: create_sequences_closed transform_def example_prices_def upt6)
  have y_test_inv: "inverse_transform ?sc ?y_test = [Val 142, Val 143]"
    by (simp add: transform_def example_prices_def inverse_transform_def)
  have y_pred_inv: "inverse_transform ?sc ?y_pred = [Val 140, Val 142]"
    by (simp add: transform_def example_prices_def inverse_transform_def)
  have mse: "mean_squared_error [Val 142, Val 143] [Val 140, Val 142] = Inr (5 / 2)"
    and mae: "mean_absolute_error [Val 142, Val 143] [Val 140, Val 142] = Inr (3 / 2)"
    and r2: "r2_score [Val 142, Val 143] [Val 140, Val 142] = Inr (Val (- 9))"
    by (simp_all add: mean_squared_error_def mean_absolute_error_def r2_score_def
        check_reg_targets_def power2_eq_square)
  show ?thesis
    by (simp add: train_and_evaluate_model_def example_env_def example_load_features
        example_price_column example_scaled windows train_test_split_def split_indices_6
        Let_def y_test_inv y_pred_inv mse mae r2)
qed

text \<open>
  C2. Whenever \<open>train_and_evaluate_model\<close> returns, the scaler was fitted on the whole
  price column of the featured frame, before the windows were built and split: its
  minimum and maximum are those of the whole column, which holds the test targets. The
  scaler that scaled the data is the one that maps the test targets and the predictions
  back, so the metrics compare prices: the test targets mapped back are the last prices
  of the column. A run that returns is one in which the range of the column did not
  overflow.
\<close>

theorem train_and_evaluate_model_scaling:
  assumes "train_and_evaluate_model env crypto_name = Inr (model, metrics)"
  shows "\<exists>df prices sc X y X_train X_test y_train y_test mse mae r2.
     load_features (files env) crypto_name = Inr df \<and>
     getitem df ''price'' = Inr (map Val prices) \<and>
     scaler_fit prices = Inr sc \<and>
     data_min sc = Min (set prices) \<and> data_max sc = Max (set prices) \<and>
     create_sequences (transform sc prices) 30 = Inr (X, y) \<and>
     train_test_split X y (1 / 5) = Inr (X_train, X_test, y_train, y_test) \<and>
     fit env X_train y_train = Inr model \<and>
     y_test \<noteq> [] \<and>
     data_max sc - data_min sc < overflow_threshold \<and>
     inverse_transform sc y_test = map Val (drop (length X_train + 30) prices) \<and>
     (\<forall>c \<in> set (inverse_transform sc y_test).
        \<exists>v. c = Val v \<and> v \<in> set prices \<and> data_min sc \<le> v \<and> v \<le> data_max sc) \<and>
     mean_squared_error (inverse_transform sc y_test)
       (inverse_transform sc (map (predict env model) X_test)) = Inr mse \<and>
     mean_absolute_error (inverse_transform sc y_test)
       (inverse_transform sc (map (predict env model) X_test)) = Inr mae \<and>
     r2_score (inverse_transform sc y_test)
       (inverse_transform sc (map (predict env model) X_test)) = Inr r2 \<and>
     metrics = [(''MSE'', Val mse), (''MAE'', Val mae), (''R2'', r2)]"
proof -
  from assms obtain df price sc scaled X y X_train X_test y_train y_test mse mae r2
    where lf: "load_features (files env) crypto_name = Inr df"
      and g: "getitem df ''price'' = Inr price"
      and ft: "fit_transform price = Inr (sc, scaled)"
      and cs: "create_sequences scaled 30 = Inr (X, y)"
      and sp: "train_test_split X y (1 / 5) = Inr (X_train, X_test, y_train, y_test)"
      and fm: "fit env X_train y_train = Inr model"
      and mse: "mean_squared_error (inverse_transform sc y_test)
          (inverse_transform sc (map (predict env model) X_test)) = Inr mse"
      and mae: "mean_absolute_error (inverse_transform sc y_test)
          (inverse_transform sc (map (predict env model) X_test)) = Inr mae"
      and r2: "r2_score (inverse_transform sc y_test)
          (inverse_transform sc (map (predict env model) X_test)) = Inr r2"
      and m: "metrics = [(''MSE'', Val mse), (''MAE'', Val mae), (''R2'', r2)]"
    unfolding train_and_evaluate_model_def Let_def
    by (auto split: sum.splits prod.splits option.splits)
  from fit_transform_Inr [OF ft] obtain prices where p: "price = map Val prices"
    and sf: "scaler_fit prices = Inr sc" and sc: "scaled = transform sc prices"
    by blast
  note fitted = scaler_fit_Inr [OF sf]
  from cs have y: "y = drop 30 scaled"
    by (simp add: create_sequences_closed targets_drop)
  from train_test_split_take_drop [OF sp] obtain n where n: "0 < n" "n \<le> length X"
    and Xtr: "X_train = take n X" and yte: "y_test = drop n y"
    by blast
  have ltr: "length X_train = n"
    using n by (simp add: Xtr)
  from mse obtain t q
    where crt: "check_reg_targets (inverse_transform sc y_test)
        (inverse_transform sc (map (predict env model) X_test)) = Inr (t, q)"
    by (auto simp: mean_squared_error_def split: sum.splits)
  note finite_targets = check_reg_targets_Inr(1,4) [OF crt]
  have ne: "y_test \<noteq> []"
    using finite_targets by (auto simp: inverse_transform_def)
  have range: "data_max sc - data_min sc < overflow_threshold"
  proof (rule ccontr)
    assume "\<not> data_max sc - data_min sc < overflow_threshold"
    then have zero: "scale sc = 0"
      using scaler_fit_scale_zero(1) [OF sf] by simp
    from finite_targets obtain v where "Val v \<in> set (inverse_transform sc y_test)"
      by (cases t) auto
    from inverse_transform_zero_scale [OF zero this] show False
      by simp
  qed
  have nz: "scale sc \<noteq> 0"
    using sf range by (rule scaler_fit_scale_nonzero)
  have "y_test = transform sc (drop (length X_train + 30) prices)"
    by (simp add: yte y sc ltr transform_drop add.commute)
  then have inv: "inverse_transform sc y_test = map Val (drop (length X_train + 30) prices)"
    using nz by (simp add: inverse_transform_transform)
  have leak: "\<forall>c \<in> set (inverse_transform sc y_test).
        \<exists>v. c = Val v \<and> v \<in> set prices \<and> data_min sc \<le> v \<and> v \<le> data_max sc"
    unfolding inv fitted(2,3) by (auto dest: in_set_dropD)
  from lf g [unfolded p] sf fitted(2,3) cs [unfolded sc] sp fm ne range inv leak mse mae r2 m
  show ?thesis by blast
qed

theorem train_and_evaluate_model_scaling_witness:
  "train_and_evaluate_model example_env ''bitcoin'' =
     Inr ((), [(''MSE'', Val (5 / 2)), (''MAE'', Val (3 / 2)), (''R2'', Val (- 9))]) \<and>
   scaler_fit (drop 7 example_prices) =
     Inr \<lparr>data_min = 108, data_max = 143, scale = 1 / 35, min_shift = - (108 / 35)\<rparr> \<and>
   (\<exists>(X_train :: real list list) y_test.
      length X_train = 4 \<and>
      inverse_transform \<lparr>data_min = 108, data_max = 143, scale = 1 / 35, min_shift = - (108 / 35)\<rparr> y_test =
        map Val (drop (length X_train + 30) (drop 7 example_prices)) \<and>
      drop (length X_train + 30) (drop 7 example_prices) = [142, 143])"
proof -
  let ?sc = "\<lparr>data_min = 108, data_max = 143, scale = 1 / 35, min_shift = - (108 / 35)\<rparr>"
  note r = example_result
  have f: "scaler_fit (drop 7 example_prices) = Inr ?sc"
    by (rule example_scaler)
  from train_and_evaluate_model_scaling [OF r]
  obtain df prices sc X y X_train X_test y_train y_test
    where lf: "load_features (files example_env) ''bitcoin'' = Inr df"
      and g: "getitem df ''price'' = Inr (map Val prices)"
      and sf: "scaler_fit prices = Inr sc"
      and cs: "create_sequences (transform sc prices) 30 = Inr (X, y)"
      and sp: "train_test_split X y (1 / 5) = Inr (X_train, X_test, y_train, y_test)"
      and inv: "inverse_transform sc y_test = map Val (drop (length X_train + 30) prices)"
    by blast
  from lf have "df = dropna (foldl (\<lambda>d (name, f). setitem d name (f (map Val example_prices)))
         (example_frame example_prices) derived_columns)"
    by (simp add: example_env_def example_load_features)
  with g have "map Val prices = map Val (drop 7 example_prices)"
    by (simp add: example_price_column)
  then have p: "prices = drop 7 example_prices"
    by (simp add: inj_on_def)
  from sf f have sc: "sc = ?sc"
    by (simp add: p)
  from cs have "length X = length (transform sc prices) - 30"
    by (auto simp: create_sequences_closed)
  then have six: "length X = 6"
    by (simp add: transform_def p example_prices_def)
  from train_test_split_take_drop [OF sp] obtain n where n: "n \<le> length X"
    and si: "split_indices (length X) (1 / 5) = Inr ([0 ..< n], [n ..< length X])"
    and Xtr: "X_train = take n X"
    by blast
  from si have "[0 ..< n] = [0, 1, 2, 3]"
    by (simp add: split_indices_6 six)
  then have "length [0 ..< n] = length [0, 1, 2, 3 :: nat]"
    by (rule arg_cong)
  then have "n = 4" by simp
  with n six have l4: "length X_train = 4"
    by (simp add: Xtr)
  then have d: "drop (length X_train + 30) (drop 7 example_prices) = [142, 143]"
    by (simp add: example_prices_def)
  from l4 inv [unfolded sc p] d
  have "\<exists>(X_train :: real list list) y_test.
      length X_train = 4 \<and>
      inverse_transform ?sc y_test = map Val (drop (length X_train + 30) (drop 7 example_prices)) \<and>
      drop (length X_train + 30) (drop 7 example_prices) = [142, 143]"
    by blast
  with r f show ?thesis
    by (intro conjI)
qed

subsection \<open>Main loop and missing files\<close>

lemma train_models_abort:
  assumes "k < length cs"
    and "\<forall>j < k. \<exists>metrics. train_and_save env (cs ! j) = Inr metrics"
    and "train_and_save env (cs ! k) = Inl e"
  shows "train_models env cs out model_results = (out @ map Training (take (Suc k) cs), Inl e)"
  using assms
proof (induction cs arbitrary: k out model_results)
  case Nil
  then show ?case by simp
next
  case (Cons c cs)
  show ?case
  proof (cases k)
    case 0
    with Cons.prems(3) show ?thesis by simp
  next
    case (Suc k')
    from Cons.prems(2) Suc obtain metrics where m: "train_and_save env c = Inr metrics"
      by fastforce
    from Cons.prems Suc have "k' < length cs"
      and "\<forall>j < k'. \<exists>metrics. train_and_save env (cs ! j) = Inr metrics"
      and "train_and_save env (cs ! k') = Inl e"
      by auto
    from Cons.IH [OF this]
    show ?thesis by (simp add: m Suc)
  qed
qed

lemma missing_file_load:
  assumes "fs (''../data/processed/'' @ crypto_name @ ''_processed.csv'') = None"
  shows "load_crypto_data fs s crypto_name = (s, Inl FileNotFoundError)"
  using assms by (simp add: load_crypto_data_def read_csv_def)

lemma missing_file_train:
  assumes "files env (''../data/processed/'' @ crypto_name @ ''_processed.csv'') = None"
  shows "train_and_evaluate_model env crypto_name = Inl FileNotFoundError"
  using missing_file_load [of "files env" crypto_name "[]", OF assms]
  by (simp add: train_and_evaluate_model_def load_features_def)

lemma example_train_and_save:
  "train_and_save example_env ''bitcoin'' = Inr [(''MSE'', Val (5 / 2)), (''MAE'', Val (3 / 2)), (''R2'', Val (- 9))]"
  by (simp add: train_and_save_def example_result) (simp add: example_env_def)

lemma example_missing:
  "train_and_save example_env ''ethereum'' = Inl FileNotFoundError"
proof -
  have "files example_env (''../data/processed/'' @ ''ethereum'' @ ''_processed.csv'') = None"
    by (simp add: example_env_def example_files_def)
  from missing_file_train [OF this] show ?thesis
    by (simp add: train_and_save_def)
qed

text \<open>
  C6. The main loop does not isolate failures: for every list of assets, if training or
  saving raises for the asset at position k and not before, the run ends with that
  exception, and all that was printed is one \<open>Training\<close> line for each asset up to k:
  the metrics of the assets before k are never printed, and the assets after k are
  never processed.
\<close>

theorem run_no_failure_isolation:
  assumes "k < length cryptocurrencies"
    and "\<forall>j < k. \<exists>metrics. train_and_save env (cryptocurrencies ! j) = Inr metrics"
    and "train_and_save env (cryptocurrencies ! k) = Inl e"
  shows "run env cryptocurrencies = (map Training (take (Suc k) cryptocurrencies), Some e)"
  using train_models_abort [OF assms, of "[]" "[]"] by (simp add: run_def)

theorem run_no_failure_isolation_witness:
  "(1::nat) < length [''bitcoin'', ''ethereum'', ''binancecoin''] \<and>
   train_and_save example_env ([''bitcoin'', ''ethereum'', ''binancecoin''] ! 0) =
     Inr [(''MSE'', Val (5 / 2)), (''MAE'', Val (3 / 2)), (''R2'', Val (- 9))] \<and>
   train_and_save example_env ([''bitcoin'', ''ethereum'', ''binancecoin''] ! 1) = Inl FileNotFoundError \<and>
   main example_env = ([Training ''bitcoin'', Training ''ethereum''], Some FileNotFoundError)"
proof -
  let ?cs = "[''bitcoin'', ''ethereum'', ''binancecoin'']"
  have k: "1 < length ?cs" by simp
  have ok: "train_and_save example_env (?cs ! 0) =
      Inr [(''MSE'', Val (5 / 2)), (''MAE'', Val (3 / 2)), (''R2'', Val (- 9))]"
    by (simp add: example_train_and_save)
  then have prior: "\<forall>j < 1. \<exists>metrics. train_and_save example_env (?cs ! j) = Inr metrics"
    by simp
  have bad: "train_and_save example_env (?cs ! 1) = Inl FileNotFoundError"
    by (simp add: example_missing)
  from run_no_failure_isolation [OF k prior bad]
  have "main example_env = ([Training ''bitcoin'', Training ''ethereum''], Some FileNotFoundError)"
    by (simp add: main_def)
  with k ok bad show ?thesis
    by (intro conjI)
qed

text \<open>
  C5 (amended). When the processed file of an asset is missing, the loader of the
  modelling notebook raises FileNotFoundError, and so do \<open>train_and_evaluate_model\<close>
  and the main loop at that asset. The loader of the time-series-analysis notebook is
  the one that prints a message and returns None; its caller uses the result without
  a guard, and raises AttributeError.
\<close>

theorem missing_file_raises:
  assumes "files env (''../data/processed/'' @ crypto_name @ ''_processed.csv'') = None"
  shows "load_crypto_data (files env) s crypto_name = (s, Inl FileNotFoundError) \<and>
     train_and_evaluate_model env crypto_name = Inl FileNotFoundError \<and>
     run env (crypto_name # rest) = ([Training crypto_name], Some FileNotFoundError) \<and>
     (fs (''data/processed/features/'' @ crypto_name @ ''_engineered_features.csv'') = None \<longrightarrow>
        load_crypto_data_ts fs crypto_name =
          ([''No data found for '' @ crypto_name @ ''. Ensure data preprocessing is complete.''],
           Inr None)) \<and>
     (fs ''data/processed/features/bitcoin_engineered_features.csv'' = None \<longrightarrow>
        load_and_describe fs =
          ([''No data found for bitcoin. Ensure data preprocessing is complete.''],
           Some AttributeError))"
proof -
  have 1: "load_crypto_data (files env) s crypto_name = (s, Inl FileNotFoundError)"
    using missing_file_load [of "files env" crypto_name s, OF assms] .
  have 2: "train_and_evaluate_model env crypto_name = Inl FileNotFoundError"
    using assms by (rule missing_file_train)
  have 3: "run env (crypto_name # rest) = ([Training crypto_name], Some FileNotFoundError)"
    by (simp add: run_def train_and_save_def 2)
  have 4: "load_crypto_data_ts fs crypto_name =
          ([''No data found for '' @ crypto_name @ ''. Ensure data preprocessing is complete.''],
           Inr None)"
    if "fs (''data/processed/features/'' @ crypto_name @ ''_engineered_features.csv'') = None"
    using that by (simp add: load_crypto_data_ts_def read_csv_def)
  have 5: "load_and_describe fs =
          ([''No data found for bitcoin. Ensure data preprocessing is complete.''],
           Some AttributeError)"
    if "fs ''data/processed/features/bitcoin_engineered_features.csv'' = None"
    using that by (simp add: load_and_describe_def load_crypto_data_ts_def read_csv_def info_def)
  from 1 2 3 4 5 show ?thesis
    by blast
qed

theorem missing_file_raises_witness:
  "files example_env (''../data/processed/'' @ ''ethereum'' @ ''_processed.csv'') = None \<and>
   load_crypto_data (files example_env) [] ''ethereum'' = ([], Inl FileNotFoundError) \<and>
   train_and_evaluate_model example_env ''ethereum'' = Inl FileNotFoundError \<and>
   run example_env [''ethereum'', ''bitcoin''] = ([Training ''ethereum''], Some FileNotFoundError) \<and>
   load_crypto_data_ts (\<lambda>path. None) ''ethereum'' =
     ([''No data found for ethereum. Ensure data preprocessing is complete.''], Inr None) \<and>
   load_and_describe (\<lambda>path. None) =
     ([''No data found for bitcoin. Ensure data preprocessing is complete.''], Some AttributeError)"
proof -
  have h: "files example_env (''../data/processed/'' @ ''ethereum'' @ ''_processed.csv'') = None"
    by (simp add: example_env_def example_files_def)
  from missing_file_raises [OF h, of "[]" "[''bitcoin'']" "\<lambda>path. None"] h
  show ?thesis by simp
qed

theorem missing_file_returns_none_counterexample:
  "example_files ''../data/processed/ethereum_processed.csv'' = None \<and>
   load_crypto_data example_files [] ''ethereum'' = ([], Inl FileNotFoundError) \<and>
   isl (snd (load_crypto_data example_files [] ''ethereum'')) \<and>
   train_and_evaluate_model example_env ''ethereum'' = Inl FileNotFoundError"
proof -
  have h: "files example_env (''../data/processed/'' @ ''ethereum'' @ ''_processed.csv'') = None"
    by (simp add: example_env_def example_files_def)
  have "load_crypto_data example_files [] ''ethereum'' = ([], Inl FileNotFoundError)"
    by (simp add: load_crypto_data_def read_csv_def example_files_def)
  moreover have "train_and_evaluate_model example_env ''ethereum'' = Inl FileNotFoundError"
    using h by (rule missing_file_train)
  ultimately show ?thesis
    by (simp add: example_files_def)
qed

end
